theory Spec2Isabelle
  imports Main "HOL-Library.AList" "HOL-Library.Char_ord" "HOL-Library.List_Lexorder"
begin

section \<open>Values, documents and the store\<close>

text \<open>
  The data source of \<^verbatim>\<open>packages/gqlify-firestore/src/index.ts\<close> keeps its records in a
  Firestore database. A record is a flat mapping from field names to values; a JavaScript
  object is modelled as an association list (keys in insertion order, \<open>map_of\<close> reads a
  property, \<open>AList.update\<close> assigns one).
\<close>

datatype fvalue =
    VNull
  | VBool bool
  | VNum int
  | VStr string
  | VArr "fvalue list"
  | VMap "(string \<times> fvalue) list"

type_synonym docdata = "(string \<times> fvalue) list"

text \<open>
  What may stand on the right of a field in a write: a plain value or one of the
  \<^verbatim>\<open>admin.firestore.FieldValue\<close> sentinels the source uses
  (\<^verbatim>\<open>delete()\<close>, \<^verbatim>\<open>arrayUnion(...)\<close>, \<^verbatim>\<open>arrayRemove(...)\<close>).
\<close>

datatype wvalue =
    Plain fvalue
  | FieldDelete
  | ArrayUnion "fvalue list"
  | ArrayRemove "fvalue list"

type_synonym payload = "(string \<times> wvalue) list"

text \<open>
  A document is addressed by the segments of its slash-separated path; the database maps
  document paths to document data. Every \<^verbatim>\<open>FirestoreDataSource\<close> of a process takes the
  handle of the one default app in its constructor (lines 35-37), so all data sources read
  and write the same database, which is passed through the operations explicitly.
\<close>

type_synonym path = "string list"

type_synonym firestore = "(path \<times> docdata) list"

text \<open>
  Faults: a JavaScript \<^verbatim>\<open>TypeError\<close> (property access on \<^verbatim>\<open>undefined\<close>, call of a
  non-function), the client library's argument validation, and the server's answers to an
  update of a document that does not exist and to the creation of one that does. Transport
  faults (network, authentication, quota) are not modelled.
\<close>

datatype error = TypeError | InvalidArgument | NotFound | AlreadyExists

text \<open>
  JavaScript has two absent markers; the lookups of the data source do not agree on which
  one they return, so both are kept apart.
\<close>

datatype 'a js = Undefined | Null | Defined 'a

section \<open>lodash helpers used by the source\<close>

text \<open>\<^verbatim>\<open>isEmpty\<close> on an array, or on an object given as the list of its entries.\<close>

definition isEmpty :: "'a list \<Rightarrow> bool" where
  "isEmpty xs = (xs = [])"

text \<open>
  \<^verbatim>\<open>isEmpty\<close> on a field value that may be missing: arrays, strings and maps are empty when
  they have no element; \<^verbatim>\<open>undefined\<close>, \<^verbatim>\<open>null\<close>, booleans and numbers count as empty.
\<close>

fun isEmpty_value :: "fvalue option \<Rightarrow> bool" where
  "isEmpty_value (Some (VArr xs)) = (xs = [])"
| "isEmpty_value (Some (VStr s)) = (s = [])"
| "isEmpty_value (Some (VMap m)) = (m = [])"
| "isEmpty_value _ = True"

fun isNil :: "'a js \<Rightarrow> bool" where
  "isNil Undefined = True"
| "isNil Null = True"
| "isNil (Defined x) = False"

fun first :: "'a list \<Rightarrow> 'a js" where
  "first [] = Undefined"
| "first (x # xs) = Defined x"

section \<open>The Firestore client, as far as the source calls it\<close>

text \<open>
  The client library is not part of the repository. Its calls are modelled from its
  documented behaviour, one definition per call, so that the methods of the data source
  below read like their source. Not modelled: restrictions on the characters of document
  ids, and size limits.
\<close>

subsection \<open>Resource paths\<close>

text \<open>JavaScript's \<^verbatim>\<open>s.split(c)\<close> for a one-character separator.\<close>

fun split_on :: "char \<Rightarrow> string \<Rightarrow> string list" where
  "split_on c [] = [[]]"
| "split_on c (x # xs) =
     (if x = c then [] # split_on c xs
      else (case split_on c xs of
              [] \<Rightarrow> [[x]]
            | y # ys \<Rightarrow> (x # y) # ys))"

text \<open>The segments of a resource path: empty segments (a leading or trailing slash) are dropped.\<close>

definition segments :: "string \<Rightarrow> path" where
  "segments s = filter (\<lambda>seg. seg \<noteq> []) (split_on CHR ''/'' s)"

fun has_double_slash :: "string \<Rightarrow> bool" where
  "has_double_slash (x # y # zs) = ((x = CHR ''/'' \<and> y = CHR ''/'') \<or> has_double_slash (y # zs))"
| "has_double_slash _ = False"

text \<open>
  A resource path argument must be a non-empty string without \<^verbatim>\<open>//\<close>; anything else
  (\<^verbatim>\<open>undefined\<close>, a number, the empty string) is rejected before any request is made.
\<close>

fun validateResourcePath :: "fvalue option \<Rightarrow> error + string" where
  "validateResourcePath (Some (VStr s)) =
     (if s = [] \<or> has_double_slash s then Inl InvalidArgument else Inr s)"
| "validateResourcePath _ = Inl InvalidArgument"

text \<open>\<^verbatim>\<open>db.doc(path)\<close>: the path must have an even, non-zero number of segments.\<close>

definition fs_doc :: "string \<Rightarrow> error + path" where
  "fs_doc documentPath =
     (case validateResourcePath (Some (VStr documentPath)) of
        Inl e \<Rightarrow> Inl e
      | Inr s \<Rightarrow>
          (let p = segments s
           in if p \<noteq> [] \<and> even (length p) then Inr p else Inl InvalidArgument))"

text \<open>\<^verbatim>\<open>db.collection(path)\<close>: the path must have an odd number of segments.\<close>

definition fs_collection :: "string \<Rightarrow> error + path" where
  "fs_collection collectionPath =
     (case validateResourcePath (Some (VStr collectionPath)) of
        Inl e \<Rightarrow> Inl e
      | Inr s \<Rightarrow>
          (let p = segments s
           in if odd (length p) then Inr p else Inl InvalidArgument))"

text \<open>
  \<^verbatim>\<open>collectionRef.doc(id)\<close>, called with one argument: the argument is validated as a
  resource path and appended to the collection's path; the result must be a document path.
\<close>

definition fs_collection_doc :: "path \<Rightarrow> fvalue option \<Rightarrow> error + path" where
  "fs_collection_doc c documentPath =
     (case validateResourcePath documentPath of
        Inl e \<Rightarrow> Inl e
      | Inr s \<Rightarrow>
          (let p = c @ segments s
           in if p \<noteq> [] \<and> even (length p) then Inr p else Inl InvalidArgument))"

subsection \<open>Reading and writing one document\<close>

text \<open>\<^verbatim>\<open>ref.get()\<close>: \<open>None\<close> is a snapshot with \<^verbatim>\<open>exists = false\<close> and \<^verbatim>\<open>data() = undefined\<close>.\<close>

definition fs_get :: "path \<Rightarrow> firestore \<Rightarrow> docdata option" where
  "fs_get ref db = map_of db ref"

text \<open>
  \<^verbatim>\<open>arrayUnion\<close> appends each element that is not yet in the array; \<^verbatim>\<open>arrayRemove\<close>
  removes every occurrence of each element. On a field that is not an array the first
  leaves exactly the given elements, the second the empty array.
\<close>

definition array_union :: "fvalue list \<Rightarrow> fvalue list \<Rightarrow> fvalue list" where
  "array_union xs es = foldl (\<lambda>acc e. if e \<in> set acc then acc else acc @ [e]) xs es"

definition array_remove :: "fvalue list \<Rightarrow> fvalue list \<Rightarrow> fvalue list" where
  "array_remove xs es = filter (\<lambda>x. x \<notin> set es) xs"

fun fs_write_field :: "wvalue \<Rightarrow> fvalue option \<Rightarrow> fvalue option" where
  "fs_write_field (Plain v) old = Some v"
| "fs_write_field FieldDelete old = None"
| "fs_write_field (ArrayUnion es) (Some (VArr xs)) = Some (VArr (array_union xs es))"
| "fs_write_field (ArrayUnion es) old = Some (VArr (array_union [] es))"
| "fs_write_field (ArrayRemove es) (Some (VArr xs)) = Some (VArr (array_remove xs es))"
| "fs_write_field (ArrayRemove es) old = Some (VArr [])"

text \<open>Writing one field at a field path; maps on the way are created where they are missing.\<close>

fun write_at :: "string list \<Rightarrow> wvalue \<Rightarrow> docdata \<Rightarrow> docdata" where
  "write_at [] w d = d"
| "write_at [k] w d =
     (case fs_write_field w (map_of d k) of
        None \<Rightarrow> AList.delete k d
      | Some v \<Rightarrow> AList.update k v d)"
| "write_at (k # k' # ks) w d =
     AList.update k
       (VMap (write_at (k' # ks) w (case map_of d k of Some (VMap m) \<Rightarrow> m | _ \<Rightarrow> []))) d"

fun read_at :: "string list \<Rightarrow> docdata \<Rightarrow> fvalue option" where
  "read_at [] d = None"
| "read_at [k] d = map_of d k"
| "read_at (k # k' # ks) d =
     (case map_of d k of Some (VMap m) \<Rightarrow> read_at (k' # ks) m | _ \<Rightarrow> None)"

text \<open>
  A field path given as a string is split at the dots. The client rejects it when a
  component is empty (the empty string, a leading or trailing dot, two dots in a row) or
  when it holds one of the characters \<^verbatim>\<open>* ~ / [ ]\<close>.
\<close>

definition fieldPath :: "string \<Rightarrow> error + string list" where
  "fieldPath s =
     (let fs = split_on CHR ''.'' s
      in if [] \<in> set fs \<or> list_ex (\<lambda>ch. ch \<in> set ''*~/[]'') s then Inl InvalidArgument
         else Inr fs)"

text \<open>
  \<^verbatim>\<open>ref.set(data, {merge: true})\<close>: creates the document when it is missing and writes the
  given top-level fields, leaving every other field as it is. The keys are field names,
  taken literally. (The source passes a single field holding an array sentinel; a plain
  map value, which Firestore would merge key by key, does not occur.)
\<close>

definition set_fields :: "payload \<Rightarrow> docdata \<Rightarrow> docdata" where
  "set_fields data d = foldl (\<lambda>d (k, w). write_at [k] w d) d data"

definition fs_set_merge :: "path \<Rightarrow> payload \<Rightarrow> firestore \<Rightarrow> firestore" where
  "fs_set_merge ref data db =
     AList.update ref (set_fields data (case fs_get ref db of None \<Rightarrow> [] | Some d \<Rightarrow> d)) db"

text \<open>
  \<^verbatim>\<open>ref.update(data)\<close>: the keys are dot-separated field paths. The client rejects the
  call, before any request is made, when the data has no field, when a key is not a field
  path, or when two of the field paths conflict: one is a prefix of the other (or equal to
  it). The server rejects the update when the document does not exist.
\<close>

definition update_fields :: "payload \<Rightarrow> docdata \<Rightarrow> docdata" where
  "update_fields data d = foldl (\<lambda>d (k, w). write_at (split_on CHR ''.'' k) w d) d data"

fun conflicting :: "string list list \<Rightarrow> bool" where
  "conflicting [] = False"
| "conflicting (p # ps) =
     (list_ex (\<lambda>q. take (length p) q = p \<or> take (length q) p = q) ps \<or> conflicting ps)"

definition update_rejected :: "payload \<Rightarrow> bool" where
  "update_rejected data =
     (data = []
      \<or> list_ex (\<lambda>k. isl (fieldPath k)) (map fst data)
      \<or> conflicting (map (\<lambda>k. split_on CHR ''.'' k) (map fst data)))"

definition fs_update :: "path \<Rightarrow> payload \<Rightarrow> firestore \<Rightarrow> error + firestore" where
  "fs_update ref data db =
     (if update_rejected data then Inl InvalidArgument
      else (case fs_get ref db of
              None \<Rightarrow> Inl NotFound
            | Some d \<Rightarrow> Inr (AList.update ref (update_fields data d) db)))"

text \<open>
  \<^verbatim>\<open>collectionRef.add(data)\<close>: creates a document under an id that the client generates,
  here a parameter, and returns its reference. The keys are field names, taken literally;
  the deletion marker is not allowed in a creation.
\<close>

definition fs_add :: "path \<Rightarrow> string \<Rightarrow> payload \<Rightarrow> firestore \<Rightarrow> error + path \<times> firestore" where
  "fs_add c autoId data db =
     (if list_ex (\<lambda>w. w = FieldDelete) (map snd data) then Inl InvalidArgument
      else (case fs_get (c @ [autoId]) db of
              Some d \<Rightarrow> Inl AlreadyExists
            | None \<Rightarrow> Inr (c @ [autoId], AList.update (c @ [autoId]) (set_fields data []) db)))"

text \<open>\<^verbatim>\<open>ref.delete()\<close>: succeeds whether or not the document exists.\<close>

definition fs_delete :: "path \<Rightarrow> firestore \<Rightarrow> firestore" where
  "fs_delete ref db = AList.delete ref db"

subsection \<open>Queries\<close>

text \<open>
  \<^verbatim>\<open>collectionRef.where(field, '==', value).get()\<close>: the documents directly in the
  collection whose field at the given field path equals the value, ordered by document
  name. The result is the list that \<^verbatim>\<open>snapshot.forEach\<close> walks; \<^verbatim>\<open>snapshot.empty\<close> is
  its emptiness.
\<close>

definition in_collection :: "path \<Rightarrow> path \<Rightarrow> bool" where
  "in_collection c p = (p \<noteq> [] \<and> butlast p = c)"

definition fs_where_eq :: "path \<Rightarrow> string \<Rightarrow> fvalue \<Rightarrow> firestore \<Rightarrow> error + docdata list" where
  "fs_where_eq c field v db =
     (case fieldPath field of
        Inl e \<Rightarrow> Inl e
      | Inr fp \<Rightarrow>
          Inr (map snd (sort_key fst
                 (filter (\<lambda>(p, d). in_collection c p \<and> read_at fp d = Some v)
                    (AList.clearjunk db)))))"

section \<open>The mutation object and the where clause\<close>

text \<open>
  Both come from the server package, whose classes are not among the sources of the
  Firestore package; the data source only reads them. A mutation is what its two getters
  return: \<^verbatim>\<open>getData()\<close>, the scalar snapshot, and \<^verbatim>\<open>getArrayOperations()\<close>, the array
  directives in order. A where clause is an object from field names to objects from
  operator names to values.
\<close>

datatype ArrayOperator = ArrayOperator_set | ArrayOperator_add | ArrayOperator_remove

record ArrayOperation =
  fieldName :: string
  operator :: ArrayOperator
  opValue :: wvalue

record Mutation =
  getData :: payload
  getArrayOperations :: "ArrayOperation list"

type_synonym Where = "(string \<times> (string \<times> fvalue) list) list"

text \<open>
  The expression \<^verbatim>\<open>where.id.eq\<close>: reading \<^verbatim>\<open>eq\<close> of a missing \<^verbatim>\<open>id\<close> throws; a missing
  \<^verbatim>\<open>eq\<close> under a present \<^verbatim>\<open>id\<close> is \<^verbatim>\<open>undefined\<close>.
\<close>

definition where_id_eq :: "Where \<Rightarrow> error + fvalue option" where
  "where_id_eq wh =
     (case map_of wh ''id'' of
        None \<Rightarrow> Inl TypeError
      | Some ops \<Rightarrow> Inr (map_of ops ''eq''))"

section \<open>FirestoreDataSource\<close>

text \<open>
  The class of \<^verbatim>\<open>src/packages/gqlify-firestore/src/index.ts\<close>; the line numbers below are
  those of that file. Of its fields only the collection name is kept: the database handle
  is the shared one. The methods that filter, sort and paginate in memory are left out;
  they rest on functions of the server package.
\<close>

record FirestoreDataSource =
  collection :: string

text \<open>Lines 17-23.\<close>

definition snapToArray :: "docdata list \<Rightarrow> docdata list" where
  "snapToArray snapshot = foldl (\<lambda>data doc. data @ [doc]) [] snapshot"

text \<open>
  Lines 63-70. The parameter is annotated \<^verbatim>\<open>string\<close>, but the many-to-many lookup passes
  whatever the stored array holds, so it is a value here.
\<close>

definition findOneById :: "FirestoreDataSource \<Rightarrow> fvalue \<Rightarrow> firestore \<Rightarrow> error + docdata js" where
  "findOneById this docId db =
     (case fs_collection (collection this) of
        Inl e \<Rightarrow> Inl e
      | Inr c \<Rightarrow>
          (case fs_collection_doc c (Some docId) of
             Inl e \<Rightarrow> Inl e
           | Inr ref \<Rightarrow>
               (case fs_get ref db of
                  None \<Rightarrow> Inr Undefined
                | Some d \<Rightarrow> Inr (Defined d))))"

text \<open>Lines 194-208.\<close>

definition transformMutation :: "Mutation \<Rightarrow> payload" where
  "transformMutation mutation =
     foldl (\<lambda>payload operation.
              if operator operation \<noteq> ArrayOperator_set then payload
              else AList.update (fieldName operation) (opValue operation) payload)
       (getData mutation) (getArrayOperations mutation)"

text \<open>
  Lines 72-78, with the id that \<^verbatim>\<open>add\<close> generates as a parameter; \<^verbatim>\<open>ref.id\<close> is that id. The
  result is the returned \<^verbatim>\<open>doc.data()\<close> and the database after the call.
\<close>

definition create ::
  "FirestoreDataSource \<Rightarrow> Mutation \<Rightarrow> string \<Rightarrow> firestore \<Rightarrow> error + docdata option \<times> firestore" where
  "create this mutation autoId db =
     (let payload = transformMutation mutation
      in case fs_collection (collection this) of
           Inl e \<Rightarrow> Inl e
         | Inr c \<Rightarrow>
             (case fs_add c autoId payload db of
                Inl e \<Rightarrow> Inl e
              | Inr (ref, db1) \<Rightarrow>
                  (case fs_update ref [(''id'', Plain (VStr autoId))] db1 of
                     Inl e \<Rightarrow> Inl e
                   | Inr db2 \<Rightarrow> Inr (fs_get ref db2, db2))))"

text \<open>
  Lines 80-88. The callee \<^verbatim>\<open>this.db.collection(this.collection)\<close> is evaluated before the
  argument \<^verbatim>\<open>where.id.eq\<close>. The result is the database after the call.
\<close>

definition update :: "FirestoreDataSource \<Rightarrow> Where \<Rightarrow> Mutation \<Rightarrow> firestore \<Rightarrow> error + firestore" where
  "update this wh mutation db =
     (let payload = transformMutation mutation
      in if isEmpty payload then Inr db
         else (case fs_collection (collection this) of
                 Inl e \<Rightarrow> Inl e
               | Inr c \<Rightarrow>
                   (case where_id_eq wh of
                      Inl e \<Rightarrow> Inl e
                    | Inr i \<Rightarrow>
                        (case fs_collection_doc c i of
                           Inl e \<Rightarrow> Inl e
                         | Inr ref \<Rightarrow> fs_update ref payload db))))"

text \<open>Lines 90-93.\<close>

definition delete :: "FirestoreDataSource \<Rightarrow> Where \<Rightarrow> firestore \<Rightarrow> error + firestore" where
  "delete this wh db =
     (case fs_collection (collection this) of
        Inl e \<Rightarrow> Inl e
      | Inr c \<Rightarrow>
          (case where_id_eq wh of
             Inl e \<Rightarrow> Inl e
           | Inr i \<Rightarrow>
               (case fs_collection_doc c i of
                  Inl e \<Rightarrow> Inl e
                | Inr ref \<Rightarrow> Inr (fs_delete ref db))))"

text \<open>\<^verbatim>\<open>Promise.all\<close> over lookups that only read: all results, or the first fault.\<close>

fun promise_all :: "(error + 'a) list \<Rightarrow> error + 'a list" where
  "promise_all [] = Inr []"
| "promise_all (x # xs) =
     (case x of
        Inl e \<Rightarrow> Inl e
      | Inr v \<Rightarrow> (case promise_all xs of Inl e \<Rightarrow> Inl e | Inr vs \<Rightarrow> Inr (v # vs)))"

text \<open>
  Lines 136-147. A non-empty \<^verbatim>\<open>targetSideIds\<close> that is not an array has no callable
  \<^verbatim>\<open>filter\<close>.
\<close>

definition findManyFromManyRelation ::
  "FirestoreDataSource \<Rightarrow> string \<Rightarrow> string \<Rightarrow> string \<Rightarrow> firestore \<Rightarrow> error + docdata js list" where
  "findManyFromManyRelation this sourceSideName targetSideName sourceSideId db =
     (let relationTableName = ''_'' @ sourceSideName @ ''_'' @ targetSideName
      in case fs_doc (relationTableName @ ''/'' @ sourceSideId) of
           Inl e \<Rightarrow> Inl e
         | Inr ref \<Rightarrow>
             (case fs_get ref db of
                None \<Rightarrow> Inr []
              | Some docData \<Rightarrow>
                  if isEmpty_value (map_of docData ''targetSideIds'') then Inr []
                  else (case map_of docData ''targetSideIds'' of
                          Some (VArr ids) \<Rightarrow>
                            promise_all
                              (map (\<lambda>i. findOneById this i db) (filter (\<lambda>i. i \<noteq> VNull) ids))
                        | _ \<Rightarrow> Inl TypeError)))"

text \<open>Lines 149-156.\<close>

definition addIdToManyRelation ::
  "FirestoreDataSource \<Rightarrow> string \<Rightarrow> string \<Rightarrow> string \<Rightarrow> string \<Rightarrow> firestore \<Rightarrow> error + firestore" where
  "addIdToManyRelation this sourceSideName targetSideName sourceSideId targetSideId db =
     (let relationTableName = ''_'' @ sourceSideName @ ''_'' @ targetSideName
      in case fs_doc (relationTableName @ ''/'' @ sourceSideId) of
           Inl e \<Rightarrow> Inl e
         | Inr sourceSideRef \<Rightarrow>
             Inr (fs_set_merge sourceSideRef
                    [(''targetSideIds'', ArrayUnion [VStr targetSideId])] db))"

text \<open>Lines 158-165.\<close>

definition removeIdFromManyRelation ::
  "FirestoreDataSource \<Rightarrow> string \<Rightarrow> string \<Rightarrow> string \<Rightarrow> string \<Rightarrow> firestore \<Rightarrow> error + firestore" where
  "removeIdFromManyRelation this sourceSideName targetSideName sourceSideId targetSideId db =
     (let relationTableName = ''_'' @ sourceSideName @ ''_'' @ targetSideName
      in case fs_doc (relationTableName @ ''/'' @ sourceSideId) of
           Inl e \<Rightarrow> Inl e
         | Inr ref \<Rightarrow>
             Inr (fs_set_merge ref
                    [(''targetSideIds'', ArrayRemove [VStr targetSideId])] db))"

text \<open>Lines 168-180: \<^verbatim>\<open>reduce\<close> over the ids, starting from the empty object.\<close>

definition addEmbedIds :: "string \<Rightarrow> string list \<Rightarrow> payload" where
  "addEmbedIds foreignKey ids =
     foldl (\<lambda>m i. AList.update (foreignKey @ ''.'' @ i) (Plain (VBool True)) m) [] ids"

definition removeEmbedIds :: "string \<Rightarrow> string list \<Rightarrow> payload" where
  "removeEmbedIds foreignKey ids =
     foldl (\<lambda>m i. AList.update (foreignKey @ ''.'' @ i) FieldDelete m) [] ids"

text \<open>Lines 182-192.\<close>

definition findOneByEmbedId ::
  "FirestoreDataSource \<Rightarrow> string \<Rightarrow> string \<Rightarrow> firestore \<Rightarrow> error + docdata js" where
  "findOneByEmbedId this foreignKey foreignId db =
     (case fs_collection (collection this) of
        Inl e \<Rightarrow> Inl e
      | Inr c \<Rightarrow>
          (case fs_where_eq c foreignKey (VStr foreignId) db of
             Inl e \<Rightarrow> Inl e
           | Inr snapshot \<Rightarrow>
               Inr (if snapshot = [] then Null else first (snapToArray snapshot))))"

definition findManyByEmbedId ::
  "FirestoreDataSource \<Rightarrow> string \<Rightarrow> string \<Rightarrow> firestore \<Rightarrow> error + docdata list js" where
  "findManyByEmbedId this foreignKey foreignId db =
     (case fs_collection (collection this) of
        Inl e \<Rightarrow> Inl e
      | Inr c \<Rightarrow>
          (case fs_where_eq c foreignKey (VStr foreignId) db of
             Inl e \<Rightarrow> Inl e
           | Inr snapshot \<Rightarrow>
               Inr (if snapshot = [] then Null else Defined (snapToArray snapshot))))"

section \<open>The many-to-many relation\<close>

text \<open>
  The class \<^verbatim>\<open>ManyToMany\<close> of \<^verbatim>\<open>src/unnamed/part_001\<close>; the line numbers in this section
  are those of that file. A model, as far as the relation uses it: \<^verbatim>\<open>getNamings().singular\<close> and
  \<^verbatim>\<open>getDataSource()\<close>. Both sides are backed by the Firestore data source.
\<close>

record Model =
  singular :: string
  dataSource :: FirestoreDataSource

record ManyToMany =
  modelA :: Model
  modelB :: Model
  modelAField :: string
  modelBField :: "string option"

text \<open>Lines 50-64: two writes, one after the other; the second is not made when the first faults.\<close>

definition addId :: "ManyToMany \<Rightarrow> string \<Rightarrow> string \<Rightarrow> firestore \<Rightarrow> error + firestore" where
  "addId this modelAId modelBId db =
     (case addIdToManyRelation (dataSource (modelB this))
             (singular (modelA this)) (singular (modelB this)) modelAId modelBId db of
        Inl e \<Rightarrow> Inl e
      | Inr db1 \<Rightarrow>
          addIdToManyRelation (dataSource (modelA this))
            (singular (modelB this)) (singular (modelA this)) modelBId modelAId db1)"

text \<open>Lines 78-92.\<close>

definition removeId :: "ManyToMany \<Rightarrow> string \<Rightarrow> string \<Rightarrow> firestore \<Rightarrow> error + firestore" where
  "removeId this modelAId modelBId db =
     (case removeIdFromManyRelation (dataSource (modelB this))
             (singular (modelA this)) (singular (modelB this)) modelAId modelBId db of
        Inl e \<Rightarrow> Inl e
      | Inr db1 \<Rightarrow>
          removeIdFromManyRelation (dataSource (modelA this))
            (singular (modelB this)) (singular (modelA this)) modelBId modelAId db1)"

text \<open>Lines 104-122.\<close>

definition joinModelA :: "ManyToMany \<Rightarrow> string \<Rightarrow> firestore \<Rightarrow> error + docdata js list" where
  "joinModelA this modelBId db =
     (case findManyFromManyRelation (dataSource (modelA this))
             (singular (modelB this)) (singular (modelA this)) modelBId db of
        Inl e \<Rightarrow> Inl e
      | Inr records \<Rightarrow>
          Inr (if isEmpty records then [] else filter (\<lambda>record. \<not> isNil record) records))"

definition joinModelB :: "ManyToMany \<Rightarrow> string \<Rightarrow> firestore \<Rightarrow> error + docdata js list" where
  "joinModelB this modelAId db =
     (case findManyFromManyRelation (dataSource (modelB this))
             (singular (modelA this)) (singular (modelB this)) modelAId db of
        Inl e \<Rightarrow> Inl e
      | Inr records \<Rightarrow>
          Inr (if isEmpty records then [] else filter (\<lambda>record. \<not> isNil record) records))"

section \<open>Notions used to state the properties\<close>

text \<open>
  A plain identifier is a single path segment: a non-empty string without a slash, as
  Firestore document ids are. Model names are free of slashes.
\<close>

definition plain_id :: "string \<Rightarrow> bool" where
  "plain_id s = (s \<noteq> [] \<and> CHR ''/'' \<notin> set s)"

definition plain_name :: "string \<Rightarrow> bool" where
  "plain_name s = (CHR ''/'' \<notin> set s)"

text \<open>
  The id array of the document at a path (empty when the document or the array is
  missing), and the one held by the join record \<^verbatim>\<open>_source_target/sourceId\<close>.
\<close>

definition idsAt :: "path \<Rightarrow> firestore \<Rightarrow> fvalue list" where
  "idsAt ref db =
     (case fs_get ref db of
        None \<Rightarrow> []
      | Some docData \<Rightarrow>
          (case map_of docData ''targetSideIds'' of
             Some (VArr ids) \<Rightarrow> ids
           | _ \<Rightarrow> []))"

definition linkedIds :: "string \<Rightarrow> string \<Rightarrow> string \<Rightarrow> firestore \<Rightarrow> fvalue list" where
  "linkedIds sourceSideName targetSideName sourceSideId db =
     (case fs_doc (''_'' @ sourceSideName @ ''_'' @ targetSideName @ ''/'' @ sourceSideId) of
        Inl e \<Rightarrow> []
      | Inr ref \<Rightarrow> idsAt ref db)"

text \<open>A field of the document at a path; \<open>None\<close> when the document or the field is missing.\<close>

definition fieldAt :: "path \<Rightarrow> firestore \<Rightarrow> string \<Rightarrow> fvalue option" where
  "fieldAt ref db k =
     (case fs_get ref db of
        None \<Rightarrow> None
      | Some docData \<Rightarrow> map_of docData k)"

text \<open>
  An entry of an id array is accepted by a data source when \<^verbatim>\<open>findOneById\<close> returns for it,
  with a record or with \<^verbatim>\<open>undefined\<close>. Whether it does depends on the entry and the
  collection name only.
\<close>

definition accepts :: "FirestoreDataSource \<Rightarrow> fvalue \<Rightarrow> bool" where
  "accepts this v =
     (case fs_collection (collection this) of
        Inl e \<Rightarrow> False
      | Inr c \<Rightarrow> \<not> isl (fs_collection_doc c (Some v)))"

text \<open>The record an entry resolves to, if any.\<close>

definition resolve :: "FirestoreDataSource \<Rightarrow> firestore \<Rightarrow> fvalue \<Rightarrow> docdata option" where
  "resolve this db v =
     (case findOneById this v db of
        Inr (Defined r) \<Rightarrow> Some r
      | _ \<Rightarrow> None)"

text \<open>
  An entry carries its own id when the record it resolves to, if any, holds the entry in
  its \<^verbatim>\<open>id\<close> field, as \<^verbatim>\<open>create\<close> (lines 72-78) leaves every record it makes.
\<close>

definition carries_own_id :: "FirestoreDataSource \<Rightarrow> firestore \<Rightarrow> fvalue \<Rightarrow> bool" where
  "carries_own_id this db v =
     (case resolve this db v of
        None \<Rightarrow> True
      | Some r \<Rightarrow> map_of r ''id'' = Some v)"

text \<open>The array operations with operator \<^verbatim>\<open>set\<close>, and the payload as the specification words it.\<close>

definition setOperations :: "Mutation \<Rightarrow> ArrayOperation list" where
  "setOperations mutation =
     filter (\<lambda>operation. operator operation = ArrayOperator_set) (getArrayOperations mutation)"

definition overwritten :: "payload \<Rightarrow> ArrayOperation list \<Rightarrow> payload" where
  "overwritten data ops =
     foldl (\<lambda>payload operation. AList.update (fieldName operation) (opValue operation) payload)
       data ops"

section \<open>A small database for the examples\<close>

text \<open>
  Two models, users and groups, linked many-to-many. The join record of group \<^verbatim>\<open>g1\<close>
  lists user \<^verbatim>\<open>u2\<close> and a user \<^verbatim>\<open>gone\<close> that no longer exists; the join record of user
  \<^verbatim>\<open>u2\<close> lists group \<^verbatim>\<open>g1\<close> and a group \<^verbatim>\<open>old\<close> that no longer exists.
\<close>

definition ex_users :: FirestoreDataSource where
  "ex_users = \<lparr>collection = ''users''\<rparr>"

definition ex_groups :: FirestoreDataSource where
  "ex_groups = \<lparr>collection = ''groups''\<rparr>"

definition ex_rel :: ManyToMany where
  "ex_rel =
     \<lparr>modelA = \<lparr>singular = ''user'', dataSource = ex_users\<rparr>,
      modelB = \<lparr>singular = ''group'', dataSource = ex_groups\<rparr>,
      modelAField = ''groups'',
      modelBField = Some ''users''\<rparr>"

definition ex_db :: firestore where
  "ex_db =
     [([''users'', ''u1''], [(''id'', VStr ''u1''), (''name'', VStr ''Ann'')]),
      ([''users'', ''u2''], [(''id'', VStr ''u2''), (''name'', VStr ''Bob'')]),
      ([''groups'', ''g1''], [(''id'', VStr ''g1'')]),
      ([''_group_user'', ''g1''], [(''targetSideIds'', VArr [VStr ''gone'', VStr ''u2''])]),
      ([''_user_group'', ''u2''], [(''targetSideIds'', VArr [VStr ''g1'', VStr ''old''])])]"

definition ex_mutation :: Mutation where
  "ex_mutation =
     \<lparr>getData = [(''name'', Plain (VStr ''Ann B.'')), (''tags'', Plain (VArr []))],
      getArrayOperations =
        [\<lparr>fieldName = ''tags'', operator = ArrayOperator_set, opValue = Plain (VArr [VStr ''a''])\<rparr>,
         \<lparr>fieldName = ''tags'', operator = ArrayOperator_add, opValue = Plain (VArr [VStr ''b''])\<rparr>,
         \<lparr>fieldName = ''labels'', operator = ArrayOperator_set, opValue = Plain (VArr [VStr ''c''])\<rparr>]\<rparr>"

definition ex_add_only :: Mutation where
  "ex_add_only =
     \<lparr>getData = [],
      getArrayOperations =
        [\<lparr>fieldName = ''tags'', operator = ArrayOperator_add, opValue = Plain (VArr [VStr ''b''])\<rparr>]\<rparr>"

text \<open>
  A mutation that carries the patch of \<open>addEmbedIds\<close> for one group id, and the database
  after user \<^verbatim>\<open>u1\<close> has been updated with it.
\<close>

definition ex_embed_mutation :: Mutation where
  "ex_embed_mutation = \<lparr>getData = addEmbedIds ''groups'' [''g1''], getArrayOperations = []\<rparr>"

definition ex_db_embedded :: firestore where
  "ex_db_embedded =
     [([''users'', ''u1''],
         [(''id'', VStr ''u1''), (''name'', VStr ''Ann''), (''groups'', VMap [(''g1'', VBool True)])]),
      ([''users'', ''u2''], [(''id'', VStr ''u2''), (''name'', VStr ''Bob'')]),
      ([''groups'', ''g1''], [(''id'', VStr ''g1'')]),
      ([''_group_user'', ''g1''], [(''targetSideIds'', VArr [VStr ''gone'', VStr ''u2''])]),
      ([''_user_group'', ''u2''], [(''targetSideIds'', VArr [VStr ''g1'', VStr ''old''])])]"

text \<open>The database after user \<^verbatim>\<open>u1\<close> and group \<^verbatim>\<open>g1\<close> have been linked, and after the link has been removed again.\<close>

definition ex_db_linked :: firestore where
  "ex_db_linked =
     [([''users'', ''u1''], [(''id'', VStr ''u1''), (''name'', VStr ''Ann'')]),
      ([''users'', ''u2''], [(''id'', VStr ''u2''), (''name'', VStr ''Bob'')]),
      ([''groups'', ''g1''], [(''id'', VStr ''g1'')]),
      ([''_group_user'', ''g1''],
         [(''targetSideIds'', VArr [VStr ''gone'', VStr ''u2'', VStr ''u1''])]),
      ([''_user_group'', ''u2''], [(''targetSideIds'', VArr [VStr ''g1'', VStr ''old''])]),
      ([''_user_group'', ''u1''], [(''targetSideIds'', VArr [VStr ''g1''])])]"

definition ex_db_unlinked :: firestore where
  "ex_db_unlinked =
     [([''users'', ''u1''], [(''id'', VStr ''u1''), (''name'', VStr ''Ann'')]),
      ([''users'', ''u2''], [(''id'', VStr ''u2''), (''name'', VStr ''Bob'')]),
      ([''groups'', ''g1''], [(''id'', VStr ''g1'')]),
      ([''_group_user'', ''g1''], [(''targetSideIds'', VArr [VStr ''gone'', VStr ''u2''])]),
      ([''_user_group'', ''u2''], [(''targetSideIds'', VArr [VStr ''g1'', VStr ''old''])]),
      ([''_user_group'', ''u1''], [(''targetSideIds'', VArr [])])]"

section \<open>Basic facts\<close>

lemma snapToArray_id: "snapToArray snapshot = snapshot"
proof -
  have "foldl (\<lambda>data doc. data @ [doc]) acc xs = acc @ xs" for acc and xs :: "docdata list"
    by (induction xs arbitrary: acc) simp_all
  then show ?thesis by (simp add: snapToArray_def)
qed

subsection \<open>Paths\<close>

lemma split_on_nonempty: "split_on c s \<noteq> []"
  by (induction s) (auto split: list.splits)

lemma split_on_plain: "c \<notin> set s \<Longrightarrow> split_on c s = [s]"
  by (induction s) auto

lemma split_on_append: "split_on c (xs @ c # ys) = split_on c xs @ split_on c ys"
proof (induction xs)
  case Nil
  then show ?case by simp
next
  case (Cons x xs)
  then show ?case
    using split_on_nonempty [of c xs] by (cases "split_on c xs") auto
qed

lemma segments_plain: "plain_id s \<Longrightarrow> segments s = [s]"
  by (simp add: plain_id_def segments_def split_on_plain)

lemma segments_join: "segments (r @ ''/'' @ s) = segments r @ segments s"
  by (simp add: segments_def split_on_append)

lemma has_double_slash_plain: "CHR ''/'' \<notin> set s \<Longrightarrow> \<not> has_double_slash s"
  by (induction s rule: has_double_slash.induct) auto

lemma has_double_slash_append:
  "CHR ''/'' \<notin> set r \<Longrightarrow> plain_id s \<Longrightarrow> \<not> has_double_slash (r @ ''/'' @ s)"
proof (induction r)
  case Nil
  then show ?case
    using has_double_slash_plain [of s] by (cases s) (auto simp: plain_id_def)
next
  case (Cons x r)
  then show ?case by (cases r) (auto simp: plain_id_def)
qed

lemma fs_doc_join:
  assumes "plain_name src" "plain_name tgt" "plain_id sid"
  shows "fs_doc (''_'' @ src @ ''_'' @ tgt @ ''/'' @ sid) = Inr [''_'' @ src @ ''_'' @ tgt, sid]"
proof -
  let ?r = "''_'' @ src @ ''_'' @ tgt"
  have r: "CHR ''/'' \<notin> set ?r" "?r \<noteq> []"
    using assms by (auto simp: plain_name_def)
  then have pr: "plain_id ?r" by (simp add: plain_id_def)
  have "\<not> has_double_slash (?r @ ''/'' @ sid)"
    using has_double_slash_append [OF r(1) assms(3)] .
  moreover have "segments (?r @ ''/'' @ sid) = [?r, sid]"
    using segments_plain [OF pr] segments_plain [OF assms(3)] by (simp only: segments_join) simp
  ultimately show ?thesis
    by (simp add: fs_doc_def)
qed

lemma fs_collection_odd: "fs_collection s = Inr c \<Longrightarrow> odd (length c)"
  by (auto simp: fs_collection_def Let_def split: sum.splits if_splits)

lemma fs_collection_doc_plain:
  "plain_id s \<Longrightarrow> odd (length c) \<Longrightarrow> fs_collection_doc c (Some (VStr s)) = Inr (c @ [s])"
  by (auto simp: fs_collection_doc_def segments_plain has_double_slash_plain plain_id_def)

lemma fs_collection_doc_undefined: "fs_collection_doc c None = Inl InvalidArgument"
  by (simp add: fs_collection_doc_def)

subsection \<open>Objects built by repeated assignment\<close>

lemma map_of_foldl_update:
  "map_of (foldl (\<lambda>m i. AList.update (f i) v m) m0 ids) key =
     (if key \<in> f ` set ids then Some v else map_of m0 key)"
  by (induction ids arbitrary: m0) (auto simp: update_conv')

lemma keys_foldl_update:
  "fst ` set (foldl (\<lambda>m i. AList.update (f i) v m) m0 ids) = fst ` set m0 \<union> f ` set ids"
  by (induction ids arbitrary: m0) (auto simp: dom_update)

lemma transform_eq_overwritten:
  "foldl (\<lambda>payload operation.
              if operator operation \<noteq> ArrayOperator_set then payload
              else AList.update (fieldName operation) (opValue operation) payload) d ops
   = overwritten d (filter (\<lambda>operation. operator operation = ArrayOperator_set) ops)"
  by (induction ops arbitrary: d) (simp_all add: overwritten_def)

lemma map_of_overwritten:
  "map_of (overwritten d ops) f =
     (case filter (\<lambda>operation. fieldName operation = f) (rev ops) of
        [] \<Rightarrow> map_of d f
      | operation # _ \<Rightarrow> Some (opValue operation))"
proof (induction ops arbitrary: d)
  case Nil
  then show ?case by (simp add: overwritten_def)
next
  case (Cons a ops)
  have "overwritten d (a # ops) = overwritten (AList.update (fieldName a) (opValue a) d) ops"
    by (simp add: overwritten_def)
  then show ?case
    using Cons.IH [of "AList.update (fieldName a) (opValue a) d"]
    by (auto simp: update_conv' split: list.splits)
qed

subsection \<open>The where clause and single-document writes\<close>

lemma where_id_eq_missing: "map_of wh ''id'' = None \<Longrightarrow> where_id_eq wh = Inl TypeError"
  by (simp add: where_id_eq_def)

lemma where_id_eq_no_eq:
  "map_of wh ''id'' = Some ops \<Longrightarrow> map_of ops ''eq'' = None \<Longrightarrow> where_id_eq wh = Inr None"
  by (simp add: where_id_eq_def)



lemma fs_update_missing:
  assumes "fs_get ref db = None" "\<not> update_rejected data"
  shows "fs_update ref data db = Inl NotFound"
  using assms by (simp add: fs_update_def)

lemma update_rejected_empty: "\<not> update_rejected data \<Longrightarrow> data \<noteq> []"
  by (auto simp: update_rejected_def)

subsection \<open>Queries\<close>

lemma set_clearjunk: "set (AList.clearjunk db) = {(p, d). map_of db p = Some d}"
  using graph_map_of [of db] by (auto simp: Map.graph_def)

lemma fs_where_eq_empty:
  assumes "fieldPath field = Inr fp"
    and "\<forall>p d. map_of db p = Some d \<and> in_collection c p \<longrightarrow> read_at fp d \<noteq> Some v"
  shows "fs_where_eq c field v db = Inr []"
proof -
  have "filter (\<lambda>(p, d). in_collection c p \<and> read_at fp d = Some v) (AList.clearjunk db) = []"
    using assms(2) by (auto simp: filter_empty_conv set_clearjunk)
  then show ?thesis by (simp add: fs_where_eq_def assms(1))
qed

subsection \<open>Array sentinels\<close>

lemma set_array_union: "set (array_union xs es) = set xs \<union> set es"
  unfolding array_union_def by (induction es arbitrary: xs) auto

lemma set_array_remove: "set (array_remove xs es) = set xs - set es"
  by (auto simp: array_remove_def)

lemma fs_write_field_union:
  "fs_write_field (ArrayUnion es) old =
     Some (VArr (array_union (case old of Some (VArr xs) \<Rightarrow> xs | _ \<Rightarrow> []) es))"
  by (cases "(ArrayUnion es, old)" rule: fs_write_field.cases) auto

lemma fs_write_field_remove:
  "fs_write_field (ArrayRemove es) old =
     Some (VArr (array_remove (case old of Some (VArr xs) \<Rightarrow> xs | _ \<Rightarrow> []) es))"
  by (cases "(ArrayRemove es, old)" rule: fs_write_field.cases) (auto simp: array_remove_def)

subsection \<open>Merging one field into a document\<close>

lemma map_of_write_single:
  "map_of (write_at [k] w d) k' = (if k' = k then fs_write_field w (map_of d k) else map_of d k')"
  by (auto simp: update_conv' delete_conv' split: option.splits)

lemma map_of_fs_set_merge:
  "map_of (fs_set_merge ref [(k, w)] db) =
     (map_of db)(ref \<mapsto> write_at [k] w (case map_of db ref of None \<Rightarrow> [] | Some d \<Rightarrow> d))"
  by (simp add: fs_set_merge_def set_fields_def update_conv' fs_get_def)

lemma fs_get_merge_other: "q \<noteq> ref \<Longrightarrow> fs_get q (fs_set_merge ref [(k, w)] db) = fs_get q db"
  by (simp add: fs_get_def map_of_fs_set_merge)

lemma fs_get_merge_exists: "fs_get q db \<noteq> None \<Longrightarrow> fs_get q (fs_set_merge ref [(k, w)] db) \<noteq> None"
  by (simp add: fs_get_def map_of_fs_set_merge)

lemma fieldAt_merge: "k' \<noteq> k \<Longrightarrow> fieldAt q (fs_set_merge ref [(k, w)] db) k' = fieldAt q db k'"
  by (auto simp: fieldAt_def fs_get_def map_of_fs_set_merge map_of_write_single
      simp del: write_at.simps split: option.splits)

lemma idsAt_merge_other: "q \<noteq> ref \<Longrightarrow> idsAt q (fs_set_merge ref [(k, w)] db) = idsAt q db"
  by (simp add: idsAt_def fs_get_merge_other)

lemma targetSideIds_union:
  "\<exists>d. fs_get ref (fs_set_merge ref [(''targetSideIds'', ArrayUnion es)] db) = Some d
       \<and> map_of d ''targetSideIds'' = Some (VArr (array_union (idsAt ref db) es))"
  by (auto simp: fs_get_def map_of_fs_set_merge map_of_write_single fs_write_field_union idsAt_def
      simp del: write_at.simps split: option.splits fvalue.splits)

lemma targetSideIds_remove:
  "\<exists>d. fs_get ref (fs_set_merge ref [(''targetSideIds'', ArrayRemove es)] db) = Some d
       \<and> map_of d ''targetSideIds'' = Some (VArr (array_remove (idsAt ref db) es))"
  by (auto simp: fs_get_def map_of_fs_set_merge map_of_write_single fs_write_field_remove idsAt_def
      simp del: write_at.simps split: option.splits fvalue.splits)

lemma idsAt_union:
  "idsAt ref (fs_set_merge ref [(''targetSideIds'', ArrayUnion es)] db) = array_union (idsAt ref db) es"
  using targetSideIds_union [of ref es db] by (auto simp: idsAt_def)

lemma idsAt_remove:
  "idsAt ref (fs_set_merge ref [(''targetSideIds'', ArrayRemove es)] db) = array_remove (idsAt ref db) es"
  using targetSideIds_remove [of ref es db] by (auto simp: idsAt_def)

subsection \<open>Lookups by id and join records\<close>

lemma accepts_iff: "accepts this v \<longleftrightarrow> \<not> isl (findOneById this v db)"
  by (auto simp: accepts_def findOneById_def split: sum.splits option.splits)

lemma findOneById_path:
  assumes "findOneById this v db = Inr (Defined r)"
  obtains c ref where "fs_collection (collection this) = Inr c"
    and "fs_collection_doc c (Some v) = Inr ref" and "fs_get ref db = Some r"
  using assms by (auto simp: findOneById_def split: sum.splits option.splits)

lemma findOneById_at:
  "fs_collection (collection this) = Inr c \<Longrightarrow> fs_collection_doc c (Some v) = Inr ref \<Longrightarrow>
   findOneById this v db = Inr (case fs_get ref db of None \<Rightarrow> Undefined | Some d \<Rightarrow> Defined d)"
  by (simp add: findOneById_def split: option.splits)

lemma findOneById_not_Null: "findOneById this v db \<noteq> Inr Null"
  by (auto simp: findOneById_def split: sum.splits option.splits)

lemma not_accepts_VNull: "\<not> accepts this VNull"
  by (auto simp: accepts_def fs_collection_doc_def split: sum.splits)

lemma resolve_VNull: "resolve this db VNull = None"
  using not_accepts_VNull [of this] accepts_iff [of this VNull db]
  by (auto simp: resolve_def split: sum.splits js.splits)

lemma promise_all_map:
  "\<forall>x \<in> set xs. \<not> isl (f x) \<Longrightarrow> promise_all (map f xs) = Inr (map (\<lambda>x. projr (f x)) xs)"
  by (induction xs) (auto split: sum.splits)

lemma join_filter_resolve:
  assumes "\<forall>v \<in> set ids. v \<noteq> VNull \<longrightarrow> accepts this v"
  shows "filter (\<lambda>record. \<not> isNil record)
           (map (\<lambda>v. projr (findOneById this v db)) (filter (\<lambda>v. v \<noteq> VNull) ids))
         = map Defined (List.map_filter (resolve this db) ids)"
  using assms
proof (induction ids)
  case Nil
  then show ?case by simp
next
  case (Cons v ids)
  show ?case
  proof (cases "v = VNull")
    case True
    then show ?thesis using Cons by (simp add: resolve_VNull)
  next
    case False
    then have "\<not> isl (findOneById this v db)"
      using Cons.prems accepts_iff [of this v db] by simp
    then obtain x where x: "findOneById this v db = Inr x" by (cases "findOneById this v db") auto
    then have "x \<noteq> Null" using findOneById_not_Null [of this v db] by auto
    then show ?thesis
      using Cons False x by (cases x) (simp_all add: resolve_def)
  qed
qed

lemma findManyFromManyRelation_ids:
  assumes "fs_doc (''_'' @ src @ ''_'' @ tgt @ ''/'' @ sid) = Inr ref"
    and "fs_get ref db = Some docData"
    and "map_of docData ''targetSideIds'' = Some (VArr ids)"
    and "\<forall>v \<in> set ids. v \<noteq> VNull \<longrightarrow> accepts this v"
  shows "findManyFromManyRelation this src tgt sid db =
           Inr (map (\<lambda>v. projr (findOneById this v db)) (filter (\<lambda>v. v \<noteq> VNull) ids))"
proof (cases "ids = []")
  case True
  then show ?thesis using assms(1-3) by (simp add: findManyFromManyRelation_def)
next
  case False
  have "\<forall>v \<in> set (filter (\<lambda>v. v \<noteq> VNull) ids). \<not> isl (findOneById this v db)"
    using assms(4) accepts_iff [of this _ db] by auto
  then show ?thesis
    using False assms(1-3) promise_all_map [of "filter (\<lambda>v. v \<noteq> VNull) ids" "\<lambda>v. findOneById this v db"]
    by (simp add: findManyFromManyRelation_def)
qed

lemma join_records:
  assumes "findManyFromManyRelation this src tgt sid db =
           Inr (map (\<lambda>v. projr (findOneById this v db)) (filter (\<lambda>v. v \<noteq> VNull) ids))"
    and "\<forall>v \<in> set ids. v \<noteq> VNull \<longrightarrow> accepts this v"
  shows "(case findManyFromManyRelation this src tgt sid db of
            Inl e \<Rightarrow> Inl e
          | Inr records \<Rightarrow>
              Inr (if isEmpty records then [] else filter (\<lambda>record. \<not> isNil record) records))
         = Inr (map Defined (List.map_filter (resolve this db) ids))"
  using join_filter_resolve [OF assms(2), of db]
  by (auto simp: assms(1) isEmpty_def)

lemma set_idsAt_union:
  "set (idsAt q (fs_set_merge ref [(''targetSideIds'', ArrayUnion es)] db)) =
     set (idsAt q db) \<union> (if q = ref then set es else {})"
  by (cases "q = ref") (simp_all add: idsAt_union idsAt_merge_other set_array_union)

lemma set_idsAt_remove:
  "set (idsAt q (fs_set_merge ref [(''targetSideIds'', ArrayRemove es)] db)) =
     set (idsAt q db) - (if q = ref then set es else {})"
  by (cases "q = ref") (simp_all add: idsAt_remove idsAt_merge_other set_array_remove)

lemma has_array_union:
  "\<exists>d. fs_get ref (fs_set_merge ref [(''targetSideIds'', ArrayUnion es)] db) = Some d
       \<and> map_of d ''targetSideIds'' =
           Some (VArr (idsAt ref (fs_set_merge ref [(''targetSideIds'', ArrayUnion es)] db)))"
  using targetSideIds_union [of ref es db] by (simp add: idsAt_union)

lemma has_array_remove:
  "\<exists>d. fs_get ref (fs_set_merge ref [(''targetSideIds'', ArrayRemove es)] db) = Some d
       \<and> map_of d ''targetSideIds'' =
           Some (VArr (idsAt ref (fs_set_merge ref [(''targetSideIds'', ArrayRemove es)] db)))"
  using targetSideIds_remove [of ref es db] by (simp add: idsAt_remove)

lemma has_array_keep_union:
  assumes "\<exists>d. fs_get q db = Some d \<and> map_of d ''targetSideIds'' = Some (VArr (idsAt q db))"
  shows "\<exists>d. fs_get q (fs_set_merge ref [(''targetSideIds'', ArrayUnion es)] db) = Some d
       \<and> map_of d ''targetSideIds'' =
           Some (VArr (idsAt q (fs_set_merge ref [(''targetSideIds'', ArrayUnion es)] db)))"
proof (cases "q = ref")
  case True
  then show ?thesis using has_array_union [of ref es db] by simp
next
  case False
  then show ?thesis using assms by (simp add: fs_get_merge_other idsAt_merge_other)
qed

lemma has_array_keep_remove:
  assumes "\<exists>d. fs_get q db = Some d \<and> map_of d ''targetSideIds'' = Some (VArr (idsAt q db))"
  shows "\<exists>d. fs_get q (fs_set_merge ref [(''targetSideIds'', ArrayRemove es)] db) = Some d
       \<and> map_of d ''targetSideIds'' =
           Some (VArr (idsAt q (fs_set_merge ref [(''targetSideIds'', ArrayRemove es)] db)))"
proof (cases "q = ref")
  case True
  then show ?thesis using has_array_remove [of ref es db] by simp
next
  case False
  then show ?thesis using assms by (simp add: fs_get_merge_other idsAt_merge_other)
qed

lemma join_of_array:
  assumes "fs_doc (''_'' @ src @ ''_'' @ tgt @ ''/'' @ sid) = Inr ref"
    and "\<exists>d. fs_get ref db = Some d \<and> map_of d ''targetSideIds'' = Some (VArr (idsAt ref db))"
    and "\<forall>v \<in> set (idsAt ref db). v \<noteq> VNull \<longrightarrow> accepts this v"
  shows "(case findManyFromManyRelation this src tgt sid db of
            Inl e \<Rightarrow> Inl e
          | Inr records \<Rightarrow>
              Inr (if isEmpty records then [] else filter (\<lambda>record. \<not> isNil record) records))
         = Inr (map Defined (List.map_filter (resolve this db) (idsAt ref db)))"
proof -
  from assms(2) obtain d where d: "fs_get ref db = Some d"
      "map_of d ''targetSideIds'' = Some (VArr (idsAt ref db))"
    by blast
  show ?thesis
    using findManyFromManyRelation_ids [OF assms(1) d assms(3)] assms(3) by (rule join_records)
qed

lemma set_map_filter_Some: "set (List.map_filter f xs) = {y. \<exists>x \<in> set xs. f x = Some y}"
  by (induction xs) (auto split: option.splits)

lemma Defined_in_resolved:
  "Defined r \<in> set (map Defined (List.map_filter (resolve this db) ids))
     \<longleftrightarrow> (\<exists>v \<in> set ids. resolve this db v = Some r)"
  by (auto simp: set_map_filter_Some)

lemma resolve_Some: "resolve this db v = Some r \<longleftrightarrow> findOneById this v db = Inr (Defined r)"
  by (auto simp: resolve_def split: sum.splits js.splits)

lemma link_visible:
  assumes "fs_doc (''_'' @ src @ ''_'' @ tgt @ ''/'' @ sid) = Inr ref"
    and "\<exists>d. fs_get ref db = Some d \<and> map_of d ''targetSideIds'' = Some (VArr (idsAt ref db))"
    and "\<forall>v \<in> set (idsAt ref db). v \<noteq> VNull \<longrightarrow> accepts this v"
    and "VStr t \<in> set (idsAt ref db)"
    and "findOneById this (VStr t) db = Inr (Defined r)"
  shows "\<exists>recs. (case findManyFromManyRelation this src tgt sid db of
            Inl e \<Rightarrow> Inl e
          | Inr records \<Rightarrow>
              Inr (if isEmpty records then [] else filter (\<lambda>record. \<not> isNil record) records))
         = Inr recs \<and> Defined r \<in> set recs"
proof -
  have "Defined r \<in> set (map Defined (List.map_filter (resolve this db) (idsAt ref db)))"
    unfolding Defined_in_resolved resolve_Some using assms(4,5) by blast
  then show ?thesis
    using join_of_array [OF assms(1-3)] by simp
qed

lemma link_gone:
  assumes "fs_doc (''_'' @ src @ ''_'' @ tgt @ ''/'' @ sid) = Inr ref"
    and "\<exists>d. fs_get ref db' = Some d \<and> map_of d ''targetSideIds'' = Some (VArr (idsAt ref db'))"
    and sub: "set (idsAt ref db') \<subseteq> set (idsAt ref db) - {VStr t}"
    and acc: "\<forall>v \<in> set (idsAt ref db). (v \<noteq> VNull \<longrightarrow> accepts this v) \<and> carries_own_id this db v"
    and same: "\<forall>q. fieldAt q db' ''id'' = fieldAt q db ''id''"
  shows "\<exists>recs. (case findManyFromManyRelation this src tgt sid db' of
            Inl e \<Rightarrow> Inl e
          | Inr records \<Rightarrow>
              Inr (if isEmpty records then [] else filter (\<lambda>record. \<not> isNil record) records))
         = Inr recs \<and> (\<forall>r. Defined r \<in> set recs \<longrightarrow> map_of r ''id'' \<noteq> Some (VStr t))"
proof -
  have acc': "\<forall>v \<in> set (idsAt ref db'). v \<noteq> VNull \<longrightarrow> accepts this v"
    using sub acc by blast
  have "map_of r ''id'' \<noteq> Some (VStr t)"
    if "Defined r \<in> set (map Defined (List.map_filter (resolve this db') (idsAt ref db')))" for r
  proof -
    from that obtain v where v: "v \<in> set (idsAt ref db')" "findOneById this v db' = Inr (Defined r)"
      unfolding Defined_in_resolved resolve_Some by blast
    then have vin: "v \<in> set (idsAt ref db)" and vne: "v \<noteq> VStr t"
      using sub by auto
    from v(2) obtain c q where q: "fs_collection (collection this) = Inr c"
        "fs_collection_doc c (Some v) = Inr q" "fs_get q db' = Some r"
      by (rule findOneById_path)
    have "fieldAt q db' ''id'' = map_of r ''id''"
      by (simp add: fieldAt_def q(3))
    with same have id: "map_of r ''id'' = fieldAt q db ''id''"
      by simp
    show ?thesis
    proof (cases "fs_get q db")
      case None
      then show ?thesis using id by (simp add: fieldAt_def)
    next
      case (Some d)
      then have "findOneById this v db = Inr (Defined d)"
        using findOneById_at [OF q(1,2), of db] by simp
      then have "resolve this db v = Some d" by (simp add: resolve_Some)
      moreover have "carries_own_id this db v" using acc vin by blast
      ultimately have "map_of d ''id'' = Some v" by (simp add: carries_own_id_def)
      then show ?thesis using id Some vne by (simp add: fieldAt_def)
    qed
  qed
  then show ?thesis
    using join_of_array [OF assms(1,2) acc'] by simp
qed

lemma accepts_plain:
  "fs_collection (collection this) = Inr c \<Longrightarrow> plain_id s \<Longrightarrow> accepts this (VStr s)"
  using fs_collection_doc_plain [of s c] fs_collection_odd [of "collection this" c]
  by (simp add: accepts_def)

lemma linkedIds_at:
  "fs_doc (''_'' @ src @ ''_'' @ tgt @ ''/'' @ sid) = Inr ref \<Longrightarrow> linkedIds src tgt sid db = idsAt ref db"
  by (simp add: linkedIds_def)

lemma addIdToManyRelation_at:
  "fs_doc (''_'' @ src @ ''_'' @ tgt @ ''/'' @ sid) = Inr ref \<Longrightarrow>
   addIdToManyRelation this src tgt sid tid db
     = Inr (fs_set_merge ref [(''targetSideIds'', ArrayUnion [VStr tid])] db)"
  by (simp add: addIdToManyRelation_def)

lemma removeIdFromManyRelation_at:
  "fs_doc (''_'' @ src @ ''_'' @ tgt @ ''/'' @ sid) = Inr ref \<Longrightarrow>
   removeIdFromManyRelation this src tgt sid tid db
     = Inr (fs_set_merge ref [(''targetSideIds'', ArrayRemove [VStr tid])] db)"
  by (simp add: removeIdFromManyRelation_def)

lemma addIdToManyRelation_Inr:
  assumes "addIdToManyRelation this src tgt sid tid db = Inr db'"
  obtains ref where "fs_doc (''_'' @ src @ ''_'' @ tgt @ ''/'' @ sid) = Inr ref"
    and "db' = fs_set_merge ref [(''targetSideIds'', ArrayUnion [VStr tid])] db"
  using assms by (auto simp: addIdToManyRelation_def split: sum.splits)

lemma removeIdFromManyRelation_Inr:
  assumes "removeIdFromManyRelation this src tgt sid tid db = Inr db'"
  obtains ref where "fs_doc (''_'' @ src @ ''_'' @ tgt @ ''/'' @ sid) = Inr ref"
    and "db' = fs_set_merge ref [(''targetSideIds'', ArrayRemove [VStr tid])] db"
  using assms by (auto simp: removeIdFromManyRelation_def split: sum.splits)

lemma record_survives_merges:
  assumes "findOneById this v db = Inr (Defined r)"
  shows "\<exists>r'. findOneById this v
                 (fs_set_merge p2 [(''targetSideIds'', w2)] (fs_set_merge p1 [(''targetSideIds'', w1)] db))
               = Inr (Defined r')
             \<and> (\<forall>k. k \<noteq> ''targetSideIds'' \<longrightarrow> map_of r' k = map_of r k)"
proof -
  let ?db' = "fs_set_merge p2 [(''targetSideIds'', w2)] (fs_set_merge p1 [(''targetSideIds'', w1)] db)"
  from assms obtain c q where q: "fs_collection (collection this) = Inr c"
      "fs_collection_doc c (Some v) = Inr q" "fs_get q db = Some r"
    by (rule findOneById_path)
  have "fs_get q ?db' \<noteq> None"
    using q(3) by (intro fs_get_merge_exists) simp
  then obtain r' where r': "fs_get q ?db' = Some r'" by blast
  have "map_of r' k = map_of r k" if "k \<noteq> ''targetSideIds''" for k
  proof -
    have "fieldAt q ?db' k = fieldAt q db k"
      using that by (simp add: fieldAt_merge)
    then show ?thesis by (simp add: fieldAt_def r' q(3))
  qed
  moreover have "findOneById this v ?db' = Inr (Defined r')"
    using findOneById_at [OF q(1,2), of ?db'] r' by simp
  ultimately show ?thesis by blast
qed

lemma addId_Inr:
  assumes "addId this a b db = Inr db'"
  obtains pa pb where
    "fs_doc (''_'' @ singular (modelA this) @ ''_'' @ singular (modelB this) @ ''/'' @ a) = Inr pa"
    and "fs_doc (''_'' @ singular (modelB this) @ ''_'' @ singular (modelA this) @ ''/'' @ b) = Inr pb"
    and "db' = fs_set_merge pb [(''targetSideIds'', ArrayUnion [VStr a])]
                 (fs_set_merge pa [(''targetSideIds'', ArrayUnion [VStr b])] db)"
proof -
  from assms obtain s where s: "addIdToManyRelation (dataSource (modelB this))
        (singular (modelA this)) (singular (modelB this)) a b db = Inr s"
      "addIdToManyRelation (dataSource (modelA this))
        (singular (modelB this)) (singular (modelA this)) b a s = Inr db'"
    by (auto simp: addId_def split: sum.splits)
  from s(1) obtain pa where pa:
      "fs_doc (''_'' @ singular (modelA this) @ ''_'' @ singular (modelB this) @ ''/'' @ a) = Inr pa"
      "s = fs_set_merge pa [(''targetSideIds'', ArrayUnion [VStr b])] db"
    by (rule addIdToManyRelation_Inr)
  from s(2) obtain pb where pb:
      "fs_doc (''_'' @ singular (modelB this) @ ''_'' @ singular (modelA this) @ ''/'' @ b) = Inr pb"
      "db' = fs_set_merge pb [(''targetSideIds'', ArrayUnion [VStr a])] s"
    by (rule addIdToManyRelation_Inr)
  show ?thesis using that [OF pa(1) pb(1)] pa(2) pb(2) by simp
qed

lemma removeId_Inr:
  assumes "removeId this a b db = Inr db'"
  obtains pa pb where
    "fs_doc (''_'' @ singular (modelA this) @ ''_'' @ singular (modelB this) @ ''/'' @ a) = Inr pa"
    and "fs_doc (''_'' @ singular (modelB this) @ ''_'' @ singular (modelA this) @ ''/'' @ b) = Inr pb"
    and "db' = fs_set_merge pb [(''targetSideIds'', ArrayRemove [VStr a])]
                 (fs_set_merge pa [(''targetSideIds'', ArrayRemove [VStr b])] db)"
proof -
  from assms obtain s where s: "removeIdFromManyRelation (dataSource (modelB this))
        (singular (modelA this)) (singular (modelB this)) a b db = Inr s"
      "removeIdFromManyRelation (dataSource (modelA this))
        (singular (modelB this)) (singular (modelA this)) b a s = Inr db'"
    by (auto simp: removeId_def split: sum.splits)
  from s(1) obtain pa where pa:
      "fs_doc (''_'' @ singular (modelA this) @ ''_'' @ singular (modelB this) @ ''/'' @ a) = Inr pa"
      "s = fs_set_merge pa [(''targetSideIds'', ArrayRemove [VStr b])] db"
    by (rule removeIdFromManyRelation_Inr)
  from s(2) obtain pb where pb:
      "fs_doc (''_'' @ singular (modelB this) @ ''_'' @ singular (modelA this) @ ''/'' @ b) = Inr pb"
      "db' = fs_set_merge pb [(''targetSideIds'', ArrayRemove [VStr a])] s"
    by (rule removeIdFromManyRelation_Inr)
  show ?thesis using that [OF pa(1) pb(1)] pa(2) pb(2) by simp
qed

subsection \<open>Created records\<close>

text \<open>A record made by \<open>create\<close> is found under the generated id and carries it in its \<^verbatim>\<open>id\<close> field.\<close>

lemma create_backfills_id:
  assumes "create this mutation autoId db = Inr (r, db')" and "plain_id autoId"
  shows "\<exists>d. r = Some d \<and> findOneById this (VStr autoId) db' = Inr (Defined d)
             \<and> map_of d ''id'' = Some (VStr autoId)"
proof -
  from assms(1) obtain c ref db1 where c: "fs_collection (collection this) = Inr c"
    and a: "fs_add c autoId (transformMutation mutation) db = Inr (ref, db1)"
    and u: "fs_update ref [(''id'', Plain (VStr autoId))] db1 = Inr db'"
    and r: "r = fs_get ref db'"
    by (auto simp: create_def Let_def split: sum.splits prod.splits)
  from a have ref: "ref = c @ [autoId]"
    by (auto simp: fs_add_def split: if_splits option.splits)
  from u obtain d0 where d0: "fs_get ref db1 = Some d0"
    and db': "db' = AList.update ref (update_fields [(''id'', Plain (VStr autoId))] d0) db1"
    by (auto simp: fs_update_def split: if_splits option.splits)
  let ?d = "update_fields [(''id'', Plain (VStr autoId))] d0"
  have g: "fs_get ref db' = Some ?d"
    by (simp add: fs_get_def db' update_conv')
  have "map_of ?d ''id'' = Some (VStr autoId)"
    by (simp add: update_fields_def update_conv')
  moreover have "findOneById this (VStr autoId) db' = Inr (Defined ?d)"
    using fs_collection_doc_plain [OF assms(2) fs_collection_odd [OF c]] g
    by (simp add: findOneById_def c ref)
  ultimately show ?thesis using r g by simp
qed

subsection \<open>The examples\<close>

lemma ex_payload:
  "transformMutation ex_mutation =
     [(''name'', Plain (VStr ''Ann B.'')),
      (''tags'', Plain (VArr [VStr ''a''])),
      (''labels'', Plain (VArr [VStr ''c'']))]"
  by (simp add: transformMutation_def ex_mutation_def)

lemma ex_users_collection: "fs_collection (collection ex_users) = Inr [''users'']"
  by (simp add: ex_users_def fs_collection_def segments_def)

lemma ex_groups_collection: "fs_collection (collection ex_groups) = Inr [''groups'']"
  by (simp add: ex_groups_def fs_collection_def segments_def)

section \<open>Mutations and single-record writes\<close>

text \<open>
  C5. If the payload that \<open>transformMutation\<close> builds from a mutation is empty, then
  \<open>update\<close> returns normally for every where clause (also one without an \<^verbatim>\<open>id\<close>), and the
  database after the call is the database before it: nothing is written.
\<close>

theorem update_empty_payload_is_noop:
  "isEmpty (transformMutation mutation) \<Longrightarrow> update this wh mutation db = Inr db"
  by (simp add: update_def)

theorem update_empty_payload_is_noop_witness:
  "isEmpty (transformMutation ex_add_only)
   \<and> update ex_users [(''name'', [(''eq'', VStr ''Ann'')])] ex_add_only ex_db = Inr ex_db"
proof -
  have h: "isEmpty (transformMutation ex_add_only)"
    by (simp add: isEmpty_def transformMutation_def ex_add_only_def)
  show ?thesis
    using h update_empty_payload_is_noop [OF h, of ex_users "[(''name'', [(''eq'', VStr ''Ann'')])]" ex_db]
    by simp
qed

text \<open>
  C6. For every field name \<open>k\<close> and list of ids, the patch of \<open>addEmbedIds\<close> maps exactly
  the keys \<^verbatim>\<open>k.<id>\<close>, for the ids of the list, each to \<^verbatim>\<open>true\<close>; the patch of
  \<open>removeEmbedIds\<close> maps exactly the same keys, each to the deletion marker. Neither has
  any other key. Both are functions of their two arguments alone.
\<close>

theorem embed_patches:
  "map_of (addEmbedIds k ids) key =
     (if key \<in> (\<lambda>i. k @ ''.'' @ i) ` set ids then Some (Plain (VBool True)) else None)
   \<and> map_of (removeEmbedIds k ids) key =
     (if key \<in> (\<lambda>i. k @ ''.'' @ i) ` set ids then Some FieldDelete else None)
   \<and> fst ` set (addEmbedIds k ids) = (\<lambda>i. k @ ''.'' @ i) ` set ids
   \<and> fst ` set (removeEmbedIds k ids) = (\<lambda>i. k @ ''.'' @ i) ` set ids"
  by (simp add: addEmbedIds_def removeEmbedIds_def map_of_foldl_update keys_foldl_update)

theorem embed_patches_witness:
  "map_of (addEmbedIds ''tags'' [''x'', ''y'']) ''tags.y'' = Some (Plain (VBool True))
   \<and> map_of (removeEmbedIds ''tags'' [''x'', ''y'']) ''tags.y'' = Some FieldDelete
   \<and> fst ` set (addEmbedIds ''tags'' [''x'', ''y'']) = {''tags.x'', ''tags.y''}
   \<and> fst ` set (removeEmbedIds ''tags'' [''x'', ''y'']) = {''tags.x'', ''tags.y''}"
  using embed_patches [of "''tags''" "[''x'', ''y'']" "''tags.y''"] by simp

text \<open>
  C7. The payload handed to the store is the scalar snapshot of the mutation, overwritten
  in order by the array operations whose operator is \<^verbatim>\<open>set\<close>; the operations with another
  operator contribute nothing. Field by field: a field named by a \<^verbatim>\<open>set\<close> operation holds
  the value of the last such operation, every other field holds what the snapshot holds.
  (\<^verbatim>\<open>create\<close> and \<^verbatim>\<open>update\<close> both pass \<open>transformMutation mutation\<close> to the store.)
\<close>

theorem transformMutation_payload:
  "transformMutation mutation = overwritten (getData mutation) (setOperations mutation)
   \<and> map_of (transformMutation mutation) f =
       (case filter (\<lambda>operation. fieldName operation = f) (rev (setOperations mutation)) of
          [] \<Rightarrow> map_of (getData mutation) f
        | operation # _ \<Rightarrow> Some (opValue operation))"
  by (simp add: transformMutation_def setOperations_def transform_eq_overwritten
      map_of_overwritten)

theorem transformMutation_payload_witness:
  "transformMutation ex_mutation =
     [(''name'', Plain (VStr ''Ann B.'')),
      (''tags'', Plain (VArr [VStr ''a''])),
      (''labels'', Plain (VArr [VStr ''c'']))]
   \<and> map_of (transformMutation ex_mutation) ''tags'' = Some (Plain (VArr [VStr ''a'']))"
  using transformMutation_payload [of ex_mutation "''tags''"]
  by (simp add: ex_mutation_def setOperations_def overwritten_def)




text \<open>The same holds for every missing record, and for payloads the client does not accept.\<close>

lemma update_missing_record:
  assumes "wh = [(''id'', [(''eq'', VStr i)])]"
    and "plain_id i"
    and "fs_collection (collection this) = Inr c"
    and "\<not> update_rejected (transformMutation mutation)"
    and "map_of db (c @ [i]) = None"
  shows "update this wh mutation db = Inl NotFound"
proof -
  have w: "where_id_eq wh = Inr (Some (VStr i))"
    by (simp add: where_id_eq_def assms(1))
  have ref: "fs_collection_doc c (Some (VStr i)) = Inr (c @ [i])"
    using assms(2) fs_collection_odd [OF assms(3)] by (rule fs_collection_doc_plain)
  show ?thesis
    using assms(4,5) update_rejected_empty [of "transformMutation mutation"]
      fs_update_missing [of "c @ [i]" db "transformMutation mutation"]
    by (simp add: update_def isEmpty_def assms(3) w ref fs_get_def)
qed

lemma update_rejected_payload:
  assumes "transformMutation mutation \<noteq> []"
    and "update_rejected (transformMutation mutation)"
    and "where_id_eq wh = Inr (Some (VStr i))"
    and "fs_collection (collection this) = Inr c"
    and "fs_collection_doc c (Some (VStr i)) = Inr ref"
  shows "update this wh mutation db = Inl InvalidArgument"
  using assms by (simp add: update_def isEmpty_def fs_update_def)

text \<open>
  C9. \<open>update\<close> (with a non-empty payload) and \<open>delete\<close> depend on the where clause only
  through \<^verbatim>\<open>where.id.eq\<close>: two where clauses that agree there give the same result,
  whatever else they constrain. Without an \<^verbatim>\<open>id\<close> entry both operations fault, with a
  \<^verbatim>\<open>TypeError\<close> from the property access when the collection name is valid; with an \<^verbatim>\<open>id\<close>
  entry that has no \<^verbatim>\<open>eq\<close> they fault as well. No other lookup is attempted.
\<close>

theorem update_delete_locate_by_id_eq:
  "(where_id_eq wh = where_id_eq wh' \<longrightarrow>
      update this wh mutation db = update this wh' mutation db
      \<and> delete this wh db = delete this wh' db)
   \<and> (map_of wh ''id'' = None \<longrightarrow>
        isl (delete this wh db)
        \<and> (\<not> isEmpty (transformMutation mutation) \<longrightarrow> isl (update this wh mutation db)))
   \<and> (map_of wh ''id'' = None \<and> fs_collection (collection this) = Inr c \<longrightarrow>
        delete this wh db = Inl TypeError
        \<and> (\<not> isEmpty (transformMutation mutation) \<longrightarrow> update this wh mutation db = Inl TypeError))
   \<and> (map_of wh ''id'' = Some ops \<and> map_of ops ''eq'' = None \<longrightarrow>
        isl (delete this wh db)
        \<and> (\<not> isEmpty (transformMutation mutation) \<longrightarrow> isl (update this wh mutation db)))"
proof (intro conjI impI)
  assume e: "where_id_eq wh = where_id_eq wh'"
  show "update this wh mutation db = update this wh' mutation db"
    and "delete this wh db = delete this wh' db"
    unfolding update_def delete_def e by (rule refl)+
next
  assume "map_of wh ''id'' = None"
  then have w: "where_id_eq wh = Inl TypeError" by (rule where_id_eq_missing)
  show "isl (delete this wh db)"
    by (simp add: delete_def w split: sum.splits)
  show "isl (update this wh mutation db)" if "\<not> isEmpty (transformMutation mutation)"
    using that by (simp add: update_def w split: sum.splits)
next
  assume a: "map_of wh ''id'' = None \<and> fs_collection (collection this) = Inr c"
  then have w: "where_id_eq wh = Inl TypeError" by (simp add: where_id_eq_missing)
  show "delete this wh db = Inl TypeError"
    using a by (simp add: delete_def w)
  show "update this wh mutation db = Inl TypeError" if "\<not> isEmpty (transformMutation mutation)"
    using that a by (simp add: update_def w)
next
  assume "map_of wh ''id'' = Some ops \<and> map_of ops ''eq'' = None"
  then have w: "where_id_eq wh = Inr None" by (simp add: where_id_eq_no_eq)
  show "isl (delete this wh db)"
    by (simp add: delete_def w fs_collection_doc_undefined split: sum.splits)
  show "isl (update this wh mutation db)" if "\<not> isEmpty (transformMutation mutation)"
    using that by (simp add: update_def w fs_collection_doc_undefined split: sum.splits)
qed

theorem update_delete_locate_by_id_eq_witness:
  "update ex_users [(''id'', [(''eq'', VStr ''u1'')]), (''name'', [(''eq'', VStr ''Bob'')])] ex_mutation ex_db
     = update ex_users [(''id'', [(''eq'', VStr ''u1'')])] ex_mutation ex_db
   \<and> delete ex_users [(''id'', [(''eq'', VStr ''u1'')]), (''name'', [(''eq'', VStr ''Bob'')])] ex_db
     = delete ex_users [(''id'', [(''eq'', VStr ''u1'')])] ex_db
   \<and> delete ex_users [(''name'', [(''eq'', VStr ''Ann'')])] ex_db = Inl TypeError
   \<and> update ex_users [(''name'', [(''eq'', VStr ''Ann'')])] ex_mutation ex_db = Inl TypeError
   \<and> isl (delete ex_users [(''id'', [(''gt'', VStr ''u0'')])] ex_db)
   \<and> isl (update ex_users [(''id'', [(''gt'', VStr ''u0'')])] ex_mutation ex_db)"
proof -
  note c = ex_users_collection
  have ne: "\<not> isEmpty (transformMutation ex_mutation)"
    by (simp add: ex_payload isEmpty_def)
  have same: "where_id_eq [(''id'', [(''eq'', VStr ''u1'')]), (''name'', [(''eq'', VStr ''Bob'')])]
                = where_id_eq [(''id'', [(''eq'', VStr ''u1'')])]"
    by (simp add: where_id_eq_def)
  have noid: "map_of [(''name'', [(''eq'', VStr ''Ann'')])] ''id'' = None"
    by simp
  have noeq: "map_of [(''id'', [(''gt'', VStr ''u0'')])] ''id'' = Some [(''gt'', VStr ''u0'')]
              \<and> map_of [(''gt'', VStr ''u0'')] ''eq'' = None"
    by simp
  show ?thesis
    using
      update_delete_locate_by_id_eq
        [of "[(''id'', [(''eq'', VStr ''u1'')]), (''name'', [(''eq'', VStr ''Bob'')])]"
            "[(''id'', [(''eq'', VStr ''u1'')])]" ex_users ex_mutation ex_db]
      update_delete_locate_by_id_eq
        [of "[(''name'', [(''eq'', VStr ''Ann'')])]" _ ex_users ex_mutation ex_db "[''users'']"]
      update_delete_locate_by_id_eq
        [of "[(''id'', [(''gt'', VStr ''u0'')])]" _ ex_users ex_mutation ex_db _ "[(''gt'', VStr ''u0'')]"]
      c ne same noid noeq
    by blast
qed

section \<open>Lookups by embedded id\<close>

text \<open>
  C10. When no record of the collection has the queried value in the queried field, both
  \<open>findManyByEmbedId\<close> and \<open>findOneByEmbedId\<close> return \<^verbatim>\<open>null\<close>; \<open>findManyByEmbedId\<close> never
  returns an empty collection. In contrast, \<open>findManyFromManyRelation\<close> returns the empty
  list when the join record is missing, and \<open>findOneById\<close> returns \<^verbatim>\<open>undefined\<close> when the
  record is missing.
\<close>

theorem embed_lookups_return_null:
  "(fs_collection (collection this) = Inr c \<and> fieldPath foreignKey = Inr fp
      \<and> (\<forall>p d. map_of db p = Some d \<and> in_collection c p \<longrightarrow> read_at fp d \<noteq> Some (VStr foreignId))
     \<longrightarrow> findManyByEmbedId this foreignKey foreignId db = Inr Null
         \<and> findOneByEmbedId this foreignKey foreignId db = Inr Null)
   \<and> findManyByEmbedId this foreignKey foreignId db \<noteq> Inr (Defined [])
   \<and> (fs_doc (''_'' @ sourceSideName @ ''_'' @ targetSideName @ ''/'' @ sourceSideId) = Inr ref
        \<and> fs_get ref db = None
     \<longrightarrow> findManyFromManyRelation this sourceSideName targetSideName sourceSideId db = Inr [])
   \<and> (fs_collection (collection this) = Inr c \<and> fs_collection_doc c (Some docId) = Inr ref'
        \<and> fs_get ref' db = None
     \<longrightarrow> findOneById this docId db = Inr Undefined)"
proof (intro conjI impI)
  assume a: "fs_collection (collection this) = Inr c \<and> fieldPath foreignKey = Inr fp
      \<and> (\<forall>p d. map_of db p = Some d \<and> in_collection c p \<longrightarrow> read_at fp d \<noteq> Some (VStr foreignId))"
  then have q: "fs_where_eq c foreignKey (VStr foreignId) db = Inr []"
    using fs_where_eq_empty [of foreignKey fp db c "VStr foreignId"] by blast
  show "findManyByEmbedId this foreignKey foreignId db = Inr Null"
    using a q by (simp add: findManyByEmbedId_def)
  show "findOneByEmbedId this foreignKey foreignId db = Inr Null"
    using a q by (simp add: findOneByEmbedId_def)
next
  show "findManyByEmbedId this foreignKey foreignId db \<noteq> Inr (Defined [])"
    by (auto simp: findManyByEmbedId_def snapToArray_id split: sum.splits)
next
  assume "fs_doc (''_'' @ sourceSideName @ ''_'' @ targetSideName @ ''/'' @ sourceSideId) = Inr ref
        \<and> fs_get ref db = None"
  then show "findManyFromManyRelation this sourceSideName targetSideName sourceSideId db = Inr []"
    by (simp add: findManyFromManyRelation_def)
next
  assume "fs_collection (collection this) = Inr c \<and> fs_collection_doc c (Some docId) = Inr ref'
        \<and> fs_get ref' db = None"
  then show "findOneById this docId db = Inr Undefined"
    by (simp add: findOneById_def)
qed

theorem embed_lookups_return_null_witness:
  "findManyByEmbedId ex_users ''tags'' ''x'' ex_db = Inr Null
   \<and> findOneByEmbedId ex_users ''tags'' ''x'' ex_db = Inr Null
   \<and> findManyFromManyRelation ex_users ''group'' ''user'' ''g2'' ex_db = Inr []
   \<and> findOneById ex_users (VStr ''gone'') ex_db = Inr Undefined"
proof -
  note c = ex_users_collection
  have fp: "fieldPath ''tags'' = Inr [''tags'']"
    by code_simp
  have none: "\<forall>p d. map_of ex_db p = Some d \<and> in_collection [''users''] p \<longrightarrow> read_at [''tags''] d \<noteq> Some (VStr ''x'')"
    by (auto simp: ex_db_def split: if_splits)
  have j: "fs_doc (''_'' @ ''group'' @ ''_'' @ ''user'' @ ''/'' @ ''g2'') = Inr [''_group_user'', ''g2'']
           \<and> fs_get [''_group_user'', ''g2''] ex_db = None"
    by (simp add: fs_doc_def segments_def fs_get_def ex_db_def)
  have g: "fs_collection_doc [''users''] (Some (VStr ''gone'')) = Inr [''users'', ''gone'']
           \<and> fs_get [''users'', ''gone''] ex_db = None"
    by (simp add: fs_collection_doc_def segments_def fs_get_def ex_db_def)
  show ?thesis
    using embed_lookups_return_null
      [of ex_users "[''users'']" "''tags''" "[''tags'']" ex_db "''x''" "''group''" "''user''" "''g2''"
          "[''_group_user'', ''g2'']" "VStr ''gone''" "[''users'', ''gone'']"]
      c fp none j g
    by blast
qed

text \<open>
  C2. The lookups by embedded id compare the whole field \<^verbatim>\<open>foreignKey\<close> with the id as a
  scalar. After user \<^verbatim>\<open>u1\<close> has been updated with the patch of
  \<open>addEmbedIds ''groups'' [''g1'']\<close>, its field \<^verbatim>\<open>groups\<close> is a map with the key \<^verbatim>\<open>g1\<close>,
  yet both lookups for \<^verbatim>\<open>g1\<close> under \<^verbatim>\<open>groups\<close> return \<^verbatim>\<open>null\<close>; a lookup under the scalar field
  \<^verbatim>\<open>name\<close> finds the record whose name equals the given string.
\<close>

theorem findByEmbedId_misses_embedded_id:
  "update ex_users [(''id'', [(''eq'', VStr ''u1'')])] ex_embed_mutation ex_db = Inr ex_db_embedded
   \<and> findManyByEmbedId ex_users ''groups'' ''g1'' ex_db_embedded = Inr Null
   \<and> findOneByEmbedId ex_users ''groups'' ''g1'' ex_db_embedded = Inr Null
   \<and> findManyByEmbedId ex_users ''name'' ''Ann'' ex_db_embedded
       = Inr (Defined [[(''id'', VStr ''u1''), (''name'', VStr ''Ann''),
                        (''groups'', VMap [(''g1'', VBool True)])]])"
  by code_simp

section \<open>Joining, linking and unlinking\<close>

text \<open>
  C3. Let the join record read by \<open>joinModelA\<close> (or \<open>joinModelB\<close>) hold an id array each
  of whose entries is \<^verbatim>\<open>null\<close> or an id for which \<open>findOneById\<close> on the resolved side
  returns, with a record or with \<^verbatim>\<open>undefined\<close>. Then the join completes without a fault
  and returns, in the order of the array, exactly the records its entries resolve to;
  an entry that resolves to nothing contributes nothing.
\<close>

theorem join_drops_dangling_ids:
  "(fs_doc (''_'' @ singular (modelB this) @ ''_'' @ singular (modelA this) @ ''/'' @ modelBId) = Inr ref
      \<and> fs_get ref db = Some docData
      \<and> map_of docData ''targetSideIds'' = Some (VArr ids)
      \<and> (\<forall>v \<in> set ids. v \<noteq> VNull \<longrightarrow> accepts (dataSource (modelA this)) v)
     \<longrightarrow> joinModelA this modelBId db
           = Inr (map Defined (List.map_filter (resolve (dataSource (modelA this)) db) ids)))
   \<and> (fs_doc (''_'' @ singular (modelA this) @ ''_'' @ singular (modelB this) @ ''/'' @ modelAId) = Inr ref'
      \<and> fs_get ref' db = Some docData'
      \<and> map_of docData' ''targetSideIds'' = Some (VArr ids')
      \<and> (\<forall>v \<in> set ids'. v \<noteq> VNull \<longrightarrow> accepts (dataSource (modelB this)) v)
     \<longrightarrow> joinModelB this modelAId db
           = Inr (map Defined (List.map_filter (resolve (dataSource (modelB this)) db) ids')))"
proof (intro conjI impI)
  assume a: "fs_doc (''_'' @ singular (modelB this) @ ''_'' @ singular (modelA this) @ ''/'' @ modelBId) = Inr ref
      \<and> fs_get ref db = Some docData
      \<and> map_of docData ''targetSideIds'' = Some (VArr ids)
      \<and> (\<forall>v \<in> set ids. v \<noteq> VNull \<longrightarrow> accepts (dataSource (modelA this)) v)"
  then have "findManyFromManyRelation (dataSource (modelA this)) (singular (modelB this))
               (singular (modelA this)) modelBId db
             = Inr (map (\<lambda>v. projr (findOneById (dataSource (modelA this)) v db))
                     (filter (\<lambda>v. v \<noteq> VNull) ids))"
    using findManyFromManyRelation_ids by blast
  then show "joinModelA this modelBId db
           = Inr (map Defined (List.map_filter (resolve (dataSource (modelA this)) db) ids))"
    unfolding joinModelA_def using a by (intro join_records) blast+
next
  assume a: "fs_doc (''_'' @ singular (modelA this) @ ''_'' @ singular (modelB this) @ ''/'' @ modelAId) = Inr ref'
      \<and> fs_get ref' db = Some docData'
      \<and> map_of docData' ''targetSideIds'' = Some (VArr ids')
      \<and> (\<forall>v \<in> set ids'. v \<noteq> VNull \<longrightarrow> accepts (dataSource (modelB this)) v)"
  then have "findManyFromManyRelation (dataSource (modelB this)) (singular (modelA this))
               (singular (modelB this)) modelAId db
             = Inr (map (\<lambda>v. projr (findOneById (dataSource (modelB this)) v db))
                     (filter (\<lambda>v. v \<noteq> VNull) ids'))"
    using findManyFromManyRelation_ids by blast
  then show "joinModelB this modelAId db
           = Inr (map Defined (List.map_filter (resolve (dataSource (modelB this)) db) ids'))"
    unfolding joinModelB_def using a by (intro join_records) blast+
qed

theorem join_drops_dangling_ids_witness:
  "findOneById ex_users (VStr ''gone'') ex_db = Inr Undefined
   \<and> findOneById ex_groups (VStr ''old'') ex_db = Inr Undefined
   \<and> joinModelA ex_rel ''g1'' ex_db = Inr [Defined [(''id'', VStr ''u2''), (''name'', VStr ''Bob'')]]
   \<and> joinModelB ex_rel ''u2'' ex_db = Inr [Defined [(''id'', VStr ''g1'')]]"
proof -
  let ?idsA = "[VStr ''gone'', VStr ''u2'']" and ?idsB = "[VStr ''g1'', VStr ''old'']"
  have a: "fs_doc (''_'' @ singular (modelB ex_rel) @ ''_'' @ singular (modelA ex_rel) @ ''/'' @ ''g1'')
             = Inr [''_group_user'', ''g1'']
           \<and> fs_get [''_group_user'', ''g1''] ex_db = Some [(''targetSideIds'', VArr ?idsA)]
           \<and> map_of [(''targetSideIds'', VArr ?idsA)] ''targetSideIds'' = Some (VArr ?idsA)
           \<and> (\<forall>v \<in> set ?idsA. v \<noteq> VNull \<longrightarrow> accepts (dataSource (modelA ex_rel)) v)"
    by code_simp
  have b: "fs_doc (''_'' @ singular (modelA ex_rel) @ ''_'' @ singular (modelB ex_rel) @ ''/'' @ ''u2'')
             = Inr [''_user_group'', ''u2'']
           \<and> fs_get [''_user_group'', ''u2''] ex_db = Some [(''targetSideIds'', VArr ?idsB)]
           \<and> map_of [(''targetSideIds'', VArr ?idsB)] ''targetSideIds'' = Some (VArr ?idsB)
           \<and> (\<forall>v \<in> set ?idsB. v \<noteq> VNull \<longrightarrow> accepts (dataSource (modelB ex_rel)) v)"
    by code_simp
  have ra: "map Defined (List.map_filter (resolve (dataSource (modelA ex_rel)) ex_db) ?idsA)
              = [Defined [(''id'', VStr ''u2''), (''name'', VStr ''Bob'')]]"
    by code_simp
  have rb: "map Defined (List.map_filter (resolve (dataSource (modelB ex_rel)) ex_db) ?idsB)
              = [Defined [(''id'', VStr ''g1'')]]"
    by code_simp
  have dangling: "findOneById ex_users (VStr ''gone'') ex_db = Inr Undefined
                  \<and> findOneById ex_groups (VStr ''old'') ex_db = Inr Undefined"
    by code_simp
  note t = join_drops_dangling_ids
      [of ex_rel "''g1''" "[''_group_user'', ''g1'']" ex_db "[(''targetSideIds'', VArr ?idsA)]" ?idsA
          "''u2''" "[''_user_group'', ''u2'']" "[(''targetSideIds'', VArr ?idsB)]" ?idsB]
  from t a have "joinModelA ex_rel ''g1'' ex_db
      = Inr (map Defined (List.map_filter (resolve (dataSource (modelA ex_rel)) ex_db) ?idsA))"
    by blast
  moreover from t b have "joinModelB ex_rel ''u2'' ex_db
      = Inr (map Defined (List.map_filter (resolve (dataSource (modelB ex_rel)) ex_db) ?idsB))"
    by blast
  ultimately show ?thesis
    using dangling by (simp only: ra rb)
qed

text \<open>
  C1. Let the model names be free of slashes, let \<open>a\<close> and \<open>b\<close> be plain identifiers whose
  records exist in the stores of model A and of model B, and let every entry already in
  the two join records concerned be an id that the resolving data source accepts. Then
  \<open>addId\<close> completes, and in the database it leaves \<open>joinModelA b\<close> returns a collection
  that contains the record stored under \<open>a\<close>, and \<open>joinModelB a\<close> one that contains the
  record stored under \<open>b\<close>. These are the records from before the call: no field other
  than \<^verbatim>\<open>targetSideIds\<close> differs.
\<close>

theorem addId_visible_from_both_sides:
  assumes "plain_name (singular (modelA this))" and "plain_name (singular (modelB this))"
    and "plain_id a" and "plain_id b"
    and "findOneById (dataSource (modelA this)) (VStr a) db = Inr (Defined ra)"
    and "findOneById (dataSource (modelB this)) (VStr b) db = Inr (Defined rb)"
    and "\<forall>v \<in> set (linkedIds (singular (modelB this)) (singular (modelA this)) b db).
           v \<noteq> VNull \<longrightarrow> accepts (dataSource (modelA this)) v"
    and "\<forall>v \<in> set (linkedIds (singular (modelA this)) (singular (modelB this)) a db).
           v \<noteq> VNull \<longrightarrow> accepts (dataSource (modelB this)) v"
  shows "\<exists>db' recsA recsB ra' rb'.
           addId this a b db = Inr db'
         \<and> joinModelA this b db' = Inr recsA \<and> Defined ra' \<in> set recsA
         \<and> findOneById (dataSource (modelA this)) (VStr a) db' = Inr (Defined ra')
         \<and> (\<forall>k. k \<noteq> ''targetSideIds'' \<longrightarrow> map_of ra' k = map_of ra k)
         \<and> joinModelB this a db' = Inr recsB \<and> Defined rb' \<in> set recsB
         \<and> findOneById (dataSource (modelB this)) (VStr b) db' = Inr (Defined rb')
         \<and> (\<forall>k. k \<noteq> ''targetSideIds'' \<longrightarrow> map_of rb' k = map_of rb k)"
proof -
  let ?A = "singular (modelA this)" and ?B = "singular (modelB this)"
  let ?dsA = "dataSource (modelA this)" and ?dsB = "dataSource (modelB this)"
  define pa where "pa = [''_'' @ ?A @ ''_'' @ ?B, a]"
  define pb where "pb = [''_'' @ ?B @ ''_'' @ ?A, b]"
  define db1 where "db1 = fs_set_merge pa [(''targetSideIds'', ArrayUnion [VStr b])] db"
  define db2 where "db2 = fs_set_merge pb [(''targetSideIds'', ArrayUnion [VStr a])] db1"
  have fa: "fs_doc (''_'' @ ?A @ ''_'' @ ?B @ ''/'' @ a) = Inr pa"
    unfolding pa_def using assms(1,2,3) by (rule fs_doc_join)
  have fb: "fs_doc (''_'' @ ?B @ ''_'' @ ?A @ ''/'' @ b) = Inr pb"
    unfolding pb_def using assms(2,1,4) by (rule fs_doc_join)
  have add: "addId this a b db = Inr db2"
    by (simp add: addId_def addIdToManyRelation_at [OF fa] addIdToManyRelation_at [OF fb]
        db1_def db2_def)
  from assms(5) obtain cA where cA: "fs_collection (collection ?dsA) = Inr cA"
    by (rule findOneById_path)
  from assms(6) obtain cB where cB: "fs_collection (collection ?dsB) = Inr cB"
    by (rule findOneById_path)
  have accA: "accepts ?dsA (VStr a)" "accepts ?dsA (VStr b)"
    using cA assms(3,4) by (simp_all add: accepts_plain)
  have accB: "accepts ?dsB (VStr a)" "accepts ?dsB (VStr b)"
    using cB assms(3,4) by (simp_all add: accepts_plain)
  have ids_b: "set (idsAt pb db2) = set (idsAt pb db) \<union> (if pb = pa then {VStr b} else {}) \<union> {VStr a}"
    by (simp add: db2_def db1_def set_idsAt_union)
  have ids_a: "set (idsAt pa db2) = set (idsAt pa db) \<union> {VStr b} \<union> (if pa = pb then {VStr a} else {})"
    by (simp add: db2_def db1_def set_idsAt_union)
  have arr_b: "\<exists>d. fs_get pb db2 = Some d \<and> map_of d ''targetSideIds'' = Some (VArr (idsAt pb db2))"
    unfolding db2_def by (rule has_array_union)
  have arr_a: "\<exists>d. fs_get pa db2 = Some d \<and> map_of d ''targetSideIds'' = Some (VArr (idsAt pa db2))"
    unfolding db2_def db1_def by (intro has_array_keep_union has_array_union)
  have ok_b: "\<forall>v \<in> set (idsAt pb db2). v \<noteq> VNull \<longrightarrow> accepts ?dsA v"
    using assms(7) accA by (auto simp: ids_b linkedIds_at [OF fb] split: if_splits)
  have ok_a: "\<forall>v \<in> set (idsAt pa db2). v \<noteq> VNull \<longrightarrow> accepts ?dsB v"
    using assms(8) accB by (auto simp: ids_a linkedIds_at [OF fa] split: if_splits)
  from record_survives_merges [OF assms(5), of pb "ArrayUnion [VStr a]" pa "ArrayUnion [VStr b]"]
  obtain ra' where ra': "findOneById ?dsA (VStr a) db2 = Inr (Defined ra')"
      "\<forall>k. k \<noteq> ''targetSideIds'' \<longrightarrow> map_of ra' k = map_of ra k"
    unfolding db2_def db1_def by blast
  from record_survives_merges [OF assms(6), of pb "ArrayUnion [VStr a]" pa "ArrayUnion [VStr b]"]
  obtain rb' where rb': "findOneById ?dsB (VStr b) db2 = Inr (Defined rb')"
      "\<forall>k. k \<noteq> ''targetSideIds'' \<longrightarrow> map_of rb' k = map_of rb k"
    unfolding db2_def db1_def by blast
  have "VStr a \<in> set (idsAt pb db2)" by (simp add: ids_b)
  from link_visible [OF fb arr_b ok_b this ra'(1)]
  obtain recsA where recsA: "joinModelA this b db2 = Inr recsA" "Defined ra' \<in> set recsA"
    unfolding joinModelA_def by blast
  have "VStr b \<in> set (idsAt pa db2)" by (simp add: ids_a)
  from link_visible [OF fa arr_a ok_a this rb'(1)]
  obtain recsB where recsB: "joinModelB this a db2 = Inr recsB" "Defined rb' \<in> set recsB"
    unfolding joinModelB_def by blast
  show ?thesis
    using add recsA recsB ra' rb' by blast
qed

theorem addId_visible_from_both_sides_witness:
  "findOneById ex_users (VStr ''u1'') ex_db = Inr (Defined [(''id'', VStr ''u1''), (''name'', VStr ''Ann'')])
   \<and> findOneById ex_groups (VStr ''g1'') ex_db = Inr (Defined [(''id'', VStr ''g1'')])
   \<and> addId ex_rel ''u1'' ''g1'' ex_db = Inr ex_db_linked
   \<and> joinModelA ex_rel ''g1'' ex_db_linked
       = Inr [Defined [(''id'', VStr ''u2''), (''name'', VStr ''Bob'')],
              Defined [(''id'', VStr ''u1''), (''name'', VStr ''Ann'')]]
   \<and> joinModelB ex_rel ''u1'' ex_db_linked = Inr [Defined [(''id'', VStr ''g1'')]]
   \<and> (\<exists>db' recsA recsB ra' rb'.
           addId ex_rel ''u1'' ''g1'' ex_db = Inr db'
         \<and> joinModelA ex_rel ''g1'' db' = Inr recsA \<and> Defined ra' \<in> set recsA
         \<and> findOneById (dataSource (modelA ex_rel)) (VStr ''u1'') db' = Inr (Defined ra')
         \<and> (\<forall>k. k \<noteq> ''targetSideIds'' \<longrightarrow>
               map_of ra' k = map_of [(''id'', VStr ''u1''), (''name'', VStr ''Ann'')] k)
         \<and> joinModelB ex_rel ''u1'' db' = Inr recsB \<and> Defined rb' \<in> set recsB
         \<and> findOneById (dataSource (modelB ex_rel)) (VStr ''g1'') db' = Inr (Defined rb')
         \<and> (\<forall>k. k \<noteq> ''targetSideIds'' \<longrightarrow> map_of rb' k = map_of [(''id'', VStr ''g1'')] k))"
proof -
  have h1: "plain_name (singular (modelA ex_rel))" by code_simp
  have h2: "plain_name (singular (modelB ex_rel))" by code_simp
  have h3: "plain_id ''u1''" by code_simp
  have h4: "plain_id ''g1''" by code_simp
  have h5: "findOneById (dataSource (modelA ex_rel)) (VStr ''u1'') ex_db
              = Inr (Defined [(''id'', VStr ''u1''), (''name'', VStr ''Ann'')])"
    by code_simp
  have h6: "findOneById (dataSource (modelB ex_rel)) (VStr ''g1'') ex_db
              = Inr (Defined [(''id'', VStr ''g1'')])"
    by code_simp
  have h7: "\<forall>v \<in> set (linkedIds (singular (modelB ex_rel)) (singular (modelA ex_rel)) ''g1'' ex_db).
              v \<noteq> VNull \<longrightarrow> accepts (dataSource (modelA ex_rel)) v"
    by code_simp
  have h8: "\<forall>v \<in> set (linkedIds (singular (modelA ex_rel)) (singular (modelB ex_rel)) ''u1'' ex_db).
              v \<noteq> VNull \<longrightarrow> accepts (dataSource (modelB ex_rel)) v"
    by code_simp
  have e: "findOneById ex_users (VStr ''u1'') ex_db = Inr (Defined [(''id'', VStr ''u1''), (''name'', VStr ''Ann'')])
   \<and> findOneById ex_groups (VStr ''g1'') ex_db = Inr (Defined [(''id'', VStr ''g1'')])
   \<and> addId ex_rel ''u1'' ''g1'' ex_db = Inr ex_db_linked
   \<and> joinModelA ex_rel ''g1'' ex_db_linked
       = Inr [Defined [(''id'', VStr ''u2''), (''name'', VStr ''Bob'')],
              Defined [(''id'', VStr ''u1''), (''name'', VStr ''Ann'')]]
   \<and> joinModelB ex_rel ''u1'' ex_db_linked = Inr [Defined [(''id'', VStr ''g1'')]]"
    by code_simp
  show ?thesis
    using e addId_visible_from_both_sides [OF h1 h2 h3 h4 h5 h6 h7 h8] by (intro conjI) blast+
qed

text \<open>
  C4. Let \<open>addId\<close> and then \<open>removeId\<close> complete for the pair \<open>(a, b)\<close>, and let every
  entry of the two join records concerned, in the database before the calls, be an id
  that the resolving data source accepts and that resolves, if at all, to a record
  holding the entry in its \<^verbatim>\<open>id\<close> field. Then afterwards \<open>joinModelA b\<close> returns a collection
  with no record of id \<open>a\<close>, \<open>joinModelB a\<close> returns a collection with no record of id \<open>b\<close>,
  and neither join record lists the other id.
\<close>

theorem removeId_undoes_addId:
  assumes "addId this a b db = Inr db1" and "removeId this a b db1 = Inr db2"
    and "\<forall>v \<in> set (linkedIds (singular (modelB this)) (singular (modelA this)) b db).
           (v \<noteq> VNull \<longrightarrow> accepts (dataSource (modelA this)) v)
           \<and> carries_own_id (dataSource (modelA this)) db v"
    and "\<forall>v \<in> set (linkedIds (singular (modelA this)) (singular (modelB this)) a db).
           (v \<noteq> VNull \<longrightarrow> accepts (dataSource (modelB this)) v)
           \<and> carries_own_id (dataSource (modelB this)) db v"
  shows "(\<exists>recs. joinModelA this b db2 = Inr recs
            \<and> (\<forall>r. Defined r \<in> set recs \<longrightarrow> map_of r ''id'' \<noteq> Some (VStr a)))
       \<and> (\<exists>recs. joinModelB this a db2 = Inr recs
            \<and> (\<forall>r. Defined r \<in> set recs \<longrightarrow> map_of r ''id'' \<noteq> Some (VStr b)))
       \<and> VStr a \<notin> set (linkedIds (singular (modelB this)) (singular (modelA this)) b db2)
       \<and> VStr b \<notin> set (linkedIds (singular (modelA this)) (singular (modelB this)) a db2)"
proof -
  let ?A = "singular (modelA this)" and ?B = "singular (modelB this)"
  let ?dsA = "dataSource (modelA this)" and ?dsB = "dataSource (modelB this)"
  from assms(1) obtain pa pb where
      fa: "fs_doc (''_'' @ ?A @ ''_'' @ ?B @ ''/'' @ a) = Inr pa"
    and fb: "fs_doc (''_'' @ ?B @ ''_'' @ ?A @ ''/'' @ b) = Inr pb"
    and db1: "db1 = fs_set_merge pb [(''targetSideIds'', ArrayUnion [VStr a])]
                 (fs_set_merge pa [(''targetSideIds'', ArrayUnion [VStr b])] db)"
    by (rule addId_Inr)
  from assms(2) fa fb have
    db2: "db2 = fs_set_merge pb [(''targetSideIds'', ArrayRemove [VStr a])]
                 (fs_set_merge pa [(''targetSideIds'', ArrayRemove [VStr b])] db1)"
    by (elim removeId_Inr) simp
  have sub_b: "set (idsAt pb db2) \<subseteq> set (idsAt pb db) - {VStr a}"
    by (auto simp: db2 db1 set_idsAt_union set_idsAt_remove split: if_splits)
  have sub_a: "set (idsAt pa db2) \<subseteq> set (idsAt pa db) - {VStr b}"
    by (auto simp: db2 db1 set_idsAt_union set_idsAt_remove split: if_splits)
  have arr_b: "\<exists>d. fs_get pb db2 = Some d \<and> map_of d ''targetSideIds'' = Some (VArr (idsAt pb db2))"
    unfolding db2 by (rule has_array_remove)
  have arr_a: "\<exists>d. fs_get pa db2 = Some d \<and> map_of d ''targetSideIds'' = Some (VArr (idsAt pa db2))"
    unfolding db2 by (intro has_array_keep_remove has_array_remove)
  have same: "\<forall>q. fieldAt q db2 ''id'' = fieldAt q db ''id''"
    by (simp add: db2 db1 fieldAt_merge)
  have wf_b: "\<forall>v \<in> set (idsAt pb db). (v \<noteq> VNull \<longrightarrow> accepts ?dsA v) \<and> carries_own_id ?dsA db v"
    using assms(3) by (simp add: linkedIds_at [OF fb])
  have wf_a: "\<forall>v \<in> set (idsAt pa db). (v \<noteq> VNull \<longrightarrow> accepts ?dsB v) \<and> carries_own_id ?dsB db v"
    using assms(4) by (simp add: linkedIds_at [OF fa])
  have "\<exists>recs. joinModelA this b db2 = Inr recs
            \<and> (\<forall>r. Defined r \<in> set recs \<longrightarrow> map_of r ''id'' \<noteq> Some (VStr a))"
    unfolding joinModelA_def using fb arr_b sub_b wf_b same by (rule link_gone)
  moreover have "\<exists>recs. joinModelB this a db2 = Inr recs
            \<and> (\<forall>r. Defined r \<in> set recs \<longrightarrow> map_of r ''id'' \<noteq> Some (VStr b))"
    unfolding joinModelB_def using fa arr_a sub_a wf_a same by (rule link_gone)
  moreover have "VStr a \<notin> set (linkedIds ?B ?A b db2)"
    using sub_b by (auto simp: linkedIds_at [OF fb])
  moreover have "VStr b \<notin> set (linkedIds ?A ?B a db2)"
    using sub_a by (auto simp: linkedIds_at [OF fa])
  ultimately show ?thesis by blast
qed

theorem removeId_undoes_addId_witness:
  "addId ex_rel ''u1'' ''g1'' ex_db = Inr ex_db_linked
   \<and> removeId ex_rel ''u1'' ''g1'' ex_db_linked = Inr ex_db_unlinked
   \<and> joinModelA ex_rel ''g1'' ex_db_unlinked
       = Inr [Defined [(''id'', VStr ''u2''), (''name'', VStr ''Bob'')]]
   \<and> joinModelB ex_rel ''u1'' ex_db_unlinked = Inr []
   \<and> (\<exists>recs. joinModelA ex_rel ''g1'' ex_db_unlinked = Inr recs
            \<and> (\<forall>r. Defined r \<in> set recs \<longrightarrow> map_of r ''id'' \<noteq> Some (VStr ''u1'')))
   \<and> (\<exists>recs. joinModelB ex_rel ''u1'' ex_db_unlinked = Inr recs
            \<and> (\<forall>r. Defined r \<in> set recs \<longrightarrow> map_of r ''id'' \<noteq> Some (VStr ''g1'')))
   \<and> VStr ''u1'' \<notin> set (linkedIds (singular (modelB ex_rel)) (singular (modelA ex_rel)) ''g1'' ex_db_unlinked)
   \<and> VStr ''g1'' \<notin> set (linkedIds (singular (modelA ex_rel)) (singular (modelB ex_rel)) ''u1'' ex_db_unlinked)"
proof -
  have h1: "addId ex_rel ''u1'' ''g1'' ex_db = Inr ex_db_linked" by code_simp
  have h2: "removeId ex_rel ''u1'' ''g1'' ex_db_linked = Inr ex_db_unlinked" by code_simp
  have h3: "\<forall>v \<in> set (linkedIds (singular (modelB ex_rel)) (singular (modelA ex_rel)) ''g1'' ex_db).
           (v \<noteq> VNull \<longrightarrow> accepts (dataSource (modelA ex_rel)) v)
           \<and> carries_own_id (dataSource (modelA ex_rel)) ex_db v"
    by code_simp
  have h4: "\<forall>v \<in> set (linkedIds (singular (modelA ex_rel)) (singular (modelB ex_rel)) ''u1'' ex_db).
           (v \<noteq> VNull \<longrightarrow> accepts (dataSource (modelB ex_rel)) v)
           \<and> carries_own_id (dataSource (modelB ex_rel)) ex_db v"
    by code_simp
  have e: "joinModelA ex_rel ''g1'' ex_db_unlinked
       = Inr [Defined [(''id'', VStr ''u2''), (''name'', VStr ''Bob'')]]
   \<and> joinModelB ex_rel ''u1'' ex_db_unlinked = Inr []"
    by code_simp
  show ?thesis
    using h1 h2 e removeId_undoes_addId [OF h1 h2 h3 h4] by (intro conjI) blast+
qed

end
